theory Spec2Isabelle
  imports Main
begin

section \<open>Python strings\<close>

text \<open>
  A Python \<open>str\<close> is modelled as a \<open>string\<close> whose characters are code points below 256.
  The two characters that cannot be written inside a string literal get names.
\<close>

abbreviation DQ :: char where
  "DQ \<equiv> CHR 0x22"

abbreviation NL :: char where
  "NL \<equiv> CHR 0x0A"

text \<open>\<open>old in s\<close>: substring test.\<close>

fun py_contains :: "string \<Rightarrow> string \<Rightarrow> bool" where
  "py_contains old [] = (old = [])"
| "py_contains old (c # cs) = (take (length old) (c # cs) = old \<or> py_contains old cs)"

text \<open>
  \<open>s.replace(old, new)\<close>: every non-overlapping occurrence of \<open>old\<close>, leftmost first.
  With an empty \<open>old\<close> Python puts \<open>new\<close> before every character and at the end.
\<close>

function py_replace :: "string \<Rightarrow> string \<Rightarrow> string \<Rightarrow> string" where
  "py_replace old new s =
     (if old = [] then new @ concat (map (\<lambda>c. c # new) s)
      else if s = [] then []
      else if take (length old) s = old then new @ py_replace old new (drop (length old) s)
      else hd s # py_replace old new (tl s))"
  by pat_completeness auto
termination
  by (relation "measure (\<lambda>(old, new, s). length s)") auto

declare py_replace.simps [simp del]

section \<open>Module source rewriting\<close>

text \<open>
  \<open>\s\<close> of a Python 3 \<open>str\<close> pattern: the ASCII white space, the four separators
  \<open>0x1c\<close> to \<open>0x1f\<close>, and \<open>0x85\<close> and \<open>0xa0\<close>.
\<close>

definition re_space :: "char \<Rightarrow> bool" where
  "re_space c = (of_char c \<in> {9, 10, 11, 12, 13, 28, 29, 30, 31, 32, 133, 160 :: nat})"

text \<open>
  One attempt to match \<open>(source[\s]*=[\s]*\")(.+?)(\")\<close> at the start of \<open>s\<close>. The result
  is the three groups and the text after the match. Both \<open>[\s]*\<close> are followed by a
  character that is no white space, so the greedy match is the only one. \<open>.+?\<close> takes one
  character, whatever it is except a newline, and then the fewest characters up to the
  next double quote; a newline before that quote makes the attempt fail.
\<close>

definition source_re_match :: "string \<Rightarrow> (string \<times> string \<times> string \<times> string) option" where
  "source_re_match s =
     (if take 6 s \<noteq> ''source'' then None
      else let r1 = drop 6 s; w1 = takeWhile re_space r1; r2 = dropWhile re_space r1 in
        (case r2 of
           [] \<Rightarrow> None
         | e # r3 \<Rightarrow>
             if e \<noteq> CHR ''='' then None
             else let w2 = takeWhile re_space r3; r4 = dropWhile re_space r3 in
               (case r4 of
                  [] \<Rightarrow> None
                | q # r5 \<Rightarrow>
                    if q \<noteq> DQ then None
                    else (case r5 of
                            [] \<Rightarrow> None
                          | c # r6 \<Rightarrow>
                              if c = NL then None
                              else let mid = takeWhile (\<lambda>x. x \<noteq> DQ) r6;
                                       r7 = dropWhile (\<lambda>x. x \<noteq> DQ) r6 in
                                if NL \<in> set mid \<or> r7 = [] then None
                                else Some (''source'' @ w1 @ ''='' @ w2 @ [DQ], c # mid, [DQ], tl r7)))))"

text \<open>The callback \<open>change_module_source_sub\<close>; \<open>tag\<close> is \<open>None\<close> or a \<open>str\<close>.\<close>

definition change_module_source_sub ::
  "string \<Rightarrow> string option \<Rightarrow> string \<times> string \<times> string \<Rightarrow> string" where
  "change_module_source_sub target_repository tag m =
     (case m of (g1, module_source, g3) \<Rightarrow>
        g1 @
        (if py_contains ''../modules'' module_source then
           (let ms1 = py_replace ''../'' '''' module_source;
                ms2 = ''git::'' @ target_repository @ ''//'' @ ms1
            in (case tag of
                  None \<Rightarrow> ms2
                | Some t \<Rightarrow> if t \<noteq> [] then ms2 @ ''?ref='' @ t else ms2))
         else module_source) @
        g3)"

text \<open>
  The scan of \<open>re.sub\<close> over a line: the matches are looked for from left to right, each
  at the first position where the pattern matches, and the search goes on after the end
  of the match. The result lists the characters outside every match and the matches.
\<close>

datatype re_piece = Unmatched char | Matched string string string

function re_finditer :: "string \<Rightarrow> re_piece list" where
  "re_finditer [] = []"
| "re_finditer (c # cs) =
     (case source_re_match (c # cs) of
        Some (g1, g2, g3, rest) \<Rightarrow> Matched g1 g2 g3 # re_finditer rest
      | None \<Rightarrow> Unmatched c # re_finditer cs)"
  by pat_completeness auto
termination
proof (relation "measure length")
  show "wf (measure length)" by simp
next
  fix c :: char and cs :: string
  assume "source_re_match (c # cs) = None"
  show "(cs, c # cs) \<in> measure length" by simp
next
  fix c :: char and cs g1 g2 g3 rest :: string
    and x2 :: "string \<times> string \<times> string \<times> string"
    and y :: "string \<times> string \<times> string" and ya :: "string \<times> string"
  assume "source_re_match (c # cs) = Some x2" and "(g1, y) = x2" and "(g2, ya) = y"
    and "(g3, rest) = ya"
  then have a0: "source_re_match (c # cs) = Some (g1, g2, g3, rest)" by simp
  define s where "s = c # cs"
  from a0 have a: "source_re_match s = Some (g1, g2, g3, rest)" by (simp add: s_def)
  let ?r1 = "drop 6 s"
  let ?r2 = "dropWhile re_space ?r1"
  have dw: "\<And>P xs. length (dropWhile P xs :: string) \<le> length xs"
    by (simp add: length_dropWhile_le)
  from a have t: "take 6 s = ''source''"
    by (auto simp: source_re_match_def split: if_splits)
  from a t obtain e r3 where r2: "?r2 = e # r3"
    by (cases ?r2) (auto simp: source_re_match_def Let_def)
  let ?r4 = "dropWhile re_space r3"
  from a t r2 have e: "e = CHR ''=''"
    by (auto simp: source_re_match_def Let_def split: if_splits)
  from a t r2 e obtain q r5 where r4: "?r4 = q # r5"
    by (cases ?r4) (auto simp: source_re_match_def Let_def)
  from a t r2 e r4 have q: "q = DQ"
    by (auto simp: source_re_match_def Let_def split: if_splits)
  from a t r2 e r4 q obtain d r6 where r5: "r5 = d # r6"
    by (cases r5) (auto simp: source_re_match_def Let_def)
  from a t r2 e r4 q r5 have res: "rest = tl (dropWhile (\<lambda>x. x \<noteq> DQ) r6)"
    by (auto simp: source_re_match_def Let_def split: if_splits)
  have "length ?r2 \<le> length s"
    using dw [of re_space ?r1] by simp
  with r2 have "length r3 < length s" by simp
  moreover have "length ?r4 \<le> length r3" by (rule dw)
  ultimately have "length r6 < length s" using r4 r5 by simp
  moreover have "length (dropWhile (\<lambda>x. x \<noteq> DQ) r6) \<le> length r6" by (rule dw)
  ultimately have "length rest < length s" using res by simp
  then show "(rest, c # cs) \<in> measure length" by (simp add: s_def)
qed

text \<open>
  \<open>re.sub(source_re, change_module_source_sub, line)\<close>: each match is replaced by what
  the callback returns for it, the rest of the line is kept.
\<close>

definition re_sub_source :: "(string \<times> string \<times> string \<Rightarrow> string) \<Rightarrow> string \<Rightarrow> string" where
  "re_sub_source f s =
     concat (map (\<lambda>p. case p of Unmatched c \<Rightarrow> [c] | Matched g1 g2 g3 \<Rightarrow> f (g1, g2, g3))
       (re_finditer s))"

text \<open>The module source strings (group 2) of the matches that \<open>re.sub\<close> finds in a line.\<close>

definition re_sources :: "string \<Rightarrow> string list" where
  "re_sources s =
     concat (map (\<lambda>p. case p of Unmatched c \<Rightarrow> [] | Matched g1 g2 g3 \<Rightarrow> [g2]) (re_finditer s))"

text \<open>The body of the loop of \<open>change_module_source\<close>, for one line read by \<open>readline\<close>.\<close>

definition change_module_source_line :: "string \<Rightarrow> string option \<Rightarrow> string \<Rightarrow> string" where
  "change_module_source_line target_repository tag line =
     re_sub_source (change_module_source_sub target_repository tag) line"

text \<open>\<open>change_module_source\<close> on the lines of the file, in order.\<close>

definition change_module_source :: "string list \<Rightarrow> string \<Rightarrow> string option \<Rightarrow> string list" where
  "change_module_source lines target_repository tag =
     map (change_module_source_line target_repository tag) lines"

text \<open>The line of the example: \<open>source = "../modules/network"\<close>.\<close>

definition network_line :: string where
  "network_line = ''source = '' @ [DQ] @ ''../modules/network'' @ [DQ]"

section \<open>Python values and dictionaries\<close>

text \<open>
  The values a configuration holds: \<open>None\<close>, \<open>bool\<close>, \<open>int\<close> (unbounded), \<open>str\<close>,
  \<open>list\<close>, \<open>dict\<close> with \<open>str\<close> keys, and \<open>PObject\<close> for a value of any other type (a
  tuple, a set, an instance of a class), which carries the name of its type. A dictionary
  keeps its keys in insertion order, so it is an association list.

  A \<open>float\<close> is not a number (\<open>FNan\<close>), an infinity (\<open>FInf\<close>, with its sign) or a finite
  value (\<open>FNum\<close>). A finite value is given by its sign and by what \<open>repr\<close> computes of it:
  the shortest list of decimal digits \<open>d1 ... dn\<close> that identifies it among the floats
  and the position \<open>decpt\<close> of the decimal point, the value being
  \<open>0.d1 ... dn * 10 ^ decpt\<close>. So \<open>1.0\<close> is \<open>FNum False [1] 1\<close>, \<open>0.25\<close> is
  \<open>FNum False [2, 5] 0\<close>, and zero has the digits \<open>[0]\<close> and \<open>decpt = 1\<close>.
\<close>

datatype pyfloat = FNan | FInf bool | FNum bool "nat list" int

datatype pyval =
    PNone
  | PBool bool
  | PInt int
  | PFloat pyfloat
  | PStr string
  | PList "pyval list"
  | PDict "(string \<times> pyval) list"
  | PObject string

type_synonym pydict = "(string \<times> pyval) list"

text \<open>The exceptions the modelled code can raise.\<close>

datatype py_error = KeyError string | IndexError | AttributeError string | TypeError string

text \<open>Truth value of a Python value, as \<open>if v:\<close> tests it.\<close>

fun truthy :: "pyval \<Rightarrow> bool" where
  "truthy PNone = False"
| "truthy (PBool b) = b"
| "truthy (PInt i) = (i \<noteq> 0)"
| "truthy (PFloat x) = (case x of FNum neg ds decpt \<Rightarrow> list_ex (\<lambda>d. d \<noteq> 0) ds | _ \<Rightarrow> True)"
| "truthy (PStr s) = (s \<noteq> [])"
| "truthy (PList vs) = (vs \<noteq> [])"
| "truthy (PDict kvs) = (kvs \<noteq> [])"
| "truthy (PObject t) = True"

text \<open>\<open>d[k] = v\<close>: a key that is present keeps its place, a new key goes to the end.\<close>

fun dict_set :: "(string \<times> 'v) list \<Rightarrow> string \<Rightarrow> 'v \<Rightarrow> (string \<times> 'v) list" where
  "dict_set [] k v = [(k, v)]"
| "dict_set ((k', v') # d) k v = (if k' = k then (k, v) # d else (k', v') # dict_set d k v)"

text \<open>\<open>{**a, **b}\<close>: the items of \<open>a\<close>, then every item of \<open>b\<close> stored in turn.\<close>

definition dict_merge :: "(string \<times> 'v) list \<Rightarrow> (string \<times> 'v) list \<Rightarrow> (string \<times> 'v) list" where
  "dict_merge a b = foldl (\<lambda>d kv. dict_set d (fst kv) (snd kv)) a b"

text \<open>\<open>d[k]\<close> as an expression raises \<open>KeyError\<close> on a missing key.\<close>

definition dict_get :: "(string \<times> 'v) list \<Rightarrow> string \<Rightarrow> py_error + 'v" where
  "dict_get d k = (case map_of d k of None \<Rightarrow> Inl (KeyError k) | Some v \<Rightarrow> Inr v)"

text \<open>\<open>d.pop(k)\<close> with no default: the value and the dictionary without the key.\<close>

definition dict_pop :: "(string \<times> 'v) list \<Rightarrow> string \<Rightarrow> py_error + ('v \<times> (string \<times> 'v) list)" where
  "dict_pop d k =
     (case map_of d k of
        None \<Rightarrow> Inl (KeyError k)
      | Some v \<Rightarrow> Inr (v, filter (\<lambda>kv. fst kv \<noteq> k) d))"

section \<open>The configuration serializer\<close>

text \<open>\<open>str(n)\<close> of an \<open>int\<close>: the decimal digits, after a minus sign when negative.\<close>

definition digit_char :: "nat \<Rightarrow> char" where
  "digit_char d = char_of (48 + d)"

function str_nat :: "nat \<Rightarrow> string" where
  "str_nat n = (if n < 10 then [digit_char n] else str_nat (n div 10) @ [digit_char (n mod 10)])"
  by pat_completeness auto
termination
  by (relation "measure id") auto

declare str_nat.simps [simp del]

definition str_int :: "int \<Rightarrow> string" where
  "str_int i = (if i < 0 then CHR ''-'' # str_nat (nat (- i)) else str_nat (nat i))"

text \<open>
  \<open>str(x)\<close> of a \<open>float\<close>, which is its \<open>repr\<close>: \<open>nan\<close>, \<open>inf\<close> and \<open>-inf\<close> for the values
  that are not finite. A finite value is written with an exponent when \<open>decpt \<le> -4\<close> or
  \<open>decpt > 16\<close>: the first digit, a point and the other digits if there are any, then
  \<open>e\<close> and the exponent \<open>decpt - 1\<close> with its sign and at least two digits. Otherwise it
  is written with the point at \<open>decpt\<close>, after \<open>0\<close> and zeros when \<open>decpt \<le> 0\<close>, and
  with zeros and \<open>.0\<close> after the digits when they end before the point.
\<close>

definition str_digits :: "nat list \<Rightarrow> string" where
  "str_digits ds = map digit_char ds"

definition str_exponent :: "int \<Rightarrow> string" where
  "str_exponent e =
     (if e < 0 then CHR ''-'' else CHR ''+'') #
     (if \<bar>e\<bar> < 10 then CHR ''0'' # str_nat (nat \<bar>e\<bar>) else str_nat (nat \<bar>e\<bar>))"

definition str_float :: "pyfloat \<Rightarrow> string" where
  "str_float x =
     (case x of
        FNan \<Rightarrow> ''nan''
      | FInf neg \<Rightarrow> (if neg then ''-'' else []) @ ''inf''
      | FNum neg ds decpt \<Rightarrow>
          (if neg then ''-'' else []) @
          (if decpt \<le> - 4 \<or> decpt > 16 then
             str_digits (take 1 ds) @
             (if 1 < length ds then ''.'' @ str_digits (drop 1 ds) else []) @
             ''e'' @ str_exponent (decpt - 1)
           else if decpt \<le> 0 then
             ''0.'' @ replicate (nat (- decpt)) CHR ''0'' @ str_digits ds
           else if nat decpt < length ds then
             str_digits (take (nat decpt) ds) @ ''.'' @ str_digits (drop (nat decpt) ds)
           else
             str_digits ds @ replicate (nat decpt - length ds) CHR ''0'' @ ''.0''))"

text \<open>
  \<open>print_hcl_scalar\<close>, as the text it writes to \<open>f\<close>. \<open>None\<close> is written by the first
  \<open>if\<close> and matches no branch of the chain that follows; \<open>str\<close> is tested before
  \<open>bool\<close> and \<open>bool\<close> before \<open>int\<close> and \<open>float\<close>, which share the branch that writes
  \<open>str(scalar)\<close>; a dictionary and a value of another type match no
  branch, and the chain has no \<open>else\<close>, so nothing is written for them. The loop over a
  list carries the flag \<open>first\<close>.
\<close>

fun print_hcl_scalar :: "pyval \<Rightarrow> string"
  and print_hcl_list :: "bool \<Rightarrow> pyval list \<Rightarrow> string" where
  "print_hcl_scalar PNone = ''null''"
| "print_hcl_scalar (PStr s) = [DQ] @ py_replace [DQ] [CHR 0x5C, DQ] s @ [DQ]"
| "print_hcl_scalar (PBool b) = (if b then ''true'' else ''false'')"
| "print_hcl_scalar (PInt i) = str_int i"
| "print_hcl_scalar (PFloat x) = str_float x"
| "print_hcl_scalar (PList vs) = ''['' @ print_hcl_list True vs @ '']''"
| "print_hcl_scalar (PDict kvs) = []"
| "print_hcl_scalar (PObject t) = []"
| "print_hcl_list first [] = []"
| "print_hcl_list first (v # vs) =
     (if \<not> first then '', '' else []) @ print_hcl_scalar v @ print_hcl_list False vs"

text \<open>\<open>(indent * self.indent_spaces) * " "\<close>, with \<open>indent_spaces = 2\<close>.\<close>

definition indent_spaces :: nat where
  "indent_spaces = 2"

definition hcl_indent :: "nat \<Rightarrow> string" where
  "hcl_indent indent = replicate (indent * indent_spaces) CHR '' ''"

text \<open>
  \<open>print_hcl\<close>, as the text it writes to \<open>f\<close>; \<open>print_hcl_items\<close> is its loop over the
  items of a dictionary. No path of \<open>print_hcl\<close> or \<open>print_hcl_scalar\<close> raises.
\<close>

fun print_hcl :: "pyval \<Rightarrow> nat \<Rightarrow> string"
  and print_hcl_items :: "(string \<times> pyval) list \<Rightarrow> nat \<Rightarrow> string" where
  "print_hcl (PDict kvs) indent =
     hcl_indent indent @ (if indent \<noteq> 0 then ''{'' @ [NL] else []) @
     print_hcl_items kvs indent @
     hcl_indent indent @ (if indent \<noteq> 0 then ''}'' @ [NL] else []) @ [NL]"
| "print_hcl PNone indent = print_hcl_scalar PNone @ [NL]"
| "print_hcl (PBool b) indent = print_hcl_scalar (PBool b) @ [NL]"
| "print_hcl (PInt i) indent = print_hcl_scalar (PInt i) @ [NL]"
| "print_hcl (PFloat x) indent = print_hcl_scalar (PFloat x) @ [NL]"
| "print_hcl (PStr s) indent = print_hcl_scalar (PStr s) @ [NL]"
| "print_hcl (PList vs) indent = print_hcl_scalar (PList vs) @ [NL]"
| "print_hcl (PObject t) indent = print_hcl_scalar (PObject t) @ [NL]"
| "print_hcl_items [] indent = []"
| "print_hcl_items ((k, v) # kvs) indent =
     hcl_indent indent @ k @ '' = '' @ print_hcl v (Suc indent) @ print_hcl_items kvs indent"

section \<open>The configurators' default configurations\<close>

text \<open>The class attributes \<open>config\<close> and \<open>repositories\<close>.\<close>

definition FastDialogs_config :: pydict where
  "FastDialogs_config =
     [(''use_upstream'', PBool True), (''upstream_tag'', PNone),
      (''bootstrap_output_path'', PNone), (''cicd_output_path'', PNone)]"

definition repositories :: "(string \<times> string) list" where
  "repositories =
     [(''modules'', ''Fabric modules''), (''bootstrap'', ''Bootstrap stage''),
      (''cicd'', ''CI/CD setup stage''), (''resman'', ''Resource management stage''),
      (''networking'', ''Networking setup stage''),
      (''security'', ''Security configuration stage''),
      (''data-platform'', ''Data platform stage''),
      (''project-factory'', ''Project factory stage'')]"

definition FastCicdConfigurator_config :: pydict where
  "FastCicdConfigurator_config = [(''git'', PStr ''ssh'')]"

definition FastGitlabConfigurator_config :: pydict where
  "FastGitlabConfigurator_config =
     [(''gitlab_url'', PNone), (''gitlab_group'', PNone), (''gitlab_group_create'', PBool False)]"

definition FastGithubConfigurator_config :: pydict where
  "FastGithubConfigurator_config = [(''github_organization'', PNone)]"

text \<open>
  The constructors, as the \<open>self.config\<close> they leave. \<open>FastCicdSystemConfigurator.__init__\<close>
  reads \<open>self.config\<close>, which is the class attribute of the subclass (\<open>cls_config\<close>), and
  \<open>super().config\<close>, which is \<open>FastDialogs.config\<close>.
\<close>

definition FastCicdConfigurator_init :: "pydict \<Rightarrow> pydict" where
  "FastCicdConfigurator_init config = dict_merge FastCicdConfigurator_config config"

definition FastCicdSystemConfigurator_init :: "pydict \<Rightarrow> pydict \<Rightarrow> pydict" where
  "FastCicdSystemConfigurator_init cls_config config =
     dict_merge (dict_merge cls_config FastDialogs_config) config"

definition FastGitlabConfigurator_init :: "pydict \<Rightarrow> pydict" where
  "FastGitlabConfigurator_init config =
     (let c1 = FastCicdSystemConfigurator_init FastGitlabConfigurator_config config;
          c2 = dict_merge c1 config;
          c3 = dict_set c2 ''gitlab_repositories'' (PDict [])
      in dict_set c3 ''gitlab_repositories''
           (PDict (foldl (\<lambda>d kv. dict_set d (fst kv) (PStr (fst kv))) [] repositories)))"

definition FastGithubConfigurator_init :: "pydict \<Rightarrow> pydict" where
  "FastGithubConfigurator_init config =
     (let c1 = FastCicdSystemConfigurator_init FastGithubConfigurator_config config;
          c2 = dict_merge c1 config;
          c3 = dict_set c2 ''github_repositories'' (PDict [])
      in dict_set c3 ''github_repositories''
           (PDict (foldl (\<lambda>d kv. dict_set d (fst kv) (PStr (fst kv))) [] repositories)))"

section \<open>The operator, the environment and the dialogs\<close>

text \<open>
  What the operator does at a dialog: leave a text and press Ok, fill a form and press
  Ok (the fields that were edited, with their new text), press a plain Ok button, answer
  Yes or No, press Previous, press Quit.
\<close>

datatype reply =
    Ok_Text string
  | Ok_Form "(string \<times> string) list"
  | Ok_Button
  | Yes
  | No
  | Previous
  | Quit

text \<open>
  The dialogs put on the screen: the quit confirmation of \<open>maybe_quit\<close>, an input dialog
  (its id, the text it starts with, whether the input is masked), a yes/no dialog (its
  id), a form (its id, the label and the starting text of each field), and the dialog of
  a Terraform run (the command and the working directory).
\<close>

datatype prompt =
    Quit_Confirmation
  | Input_Dialog string string bool
  | YesNo_Dialog string
  | Multi_Input_Dialog string "(string \<times> string) list" "(string \<times> string) list"
  | Terraform_Dialog "string list" string

text \<open>
  The state the code works on: \<open>self.config\<close>, \<open>os.environ\<close>, what the operator is going
  to do and the exit codes the external commands are going to return (both in order),
  and the dialogs shown so far.
\<close>

record world =
  config :: pydict
  environ :: "(string \<times> string) list"
  replies :: "reply list"
  exit_codes :: "int list"
  shown :: "prompt list"

text \<open>
  How a call ends: it returns a value, the process exits (\<open>quit()\<close>), an exception is
  raised, or a dialog is on the screen and nothing more is known of the operator.
\<close>

datatype 'a outcome =
    Returned 'a world
  | Exited world
  | Raised py_error world
  | Awaiting world

definition maybe_quit :: "world \<Rightarrow> unit outcome" where
  "maybe_quit w =
     (let w1 = w\<lparr>shown := shown w @ [Quit_Confirmation]\<rparr> in
      case replies w1 of
        [] \<Rightarrow> Awaiting w1
      | r # rs \<Rightarrow>
          if r = Yes then Exited (w1\<lparr>replies := rs\<rparr>)
          else if r = No then Returned () (w1\<lparr>replies := rs\<rparr>)
          else Awaiting w1)"

text \<open>
  The loop every dialog function ends with: \<open>choice = app.run()\<close>; when the choice is
  \<open>None\<close> (the Quit button) \<open>maybe_quit\<close> is called and the dialog runs again, else the
  choice is returned. \<open>result\<close> gives what \<open>app.run()\<close> returns for the buttons the
  dialog has.
\<close>

function app_loop :: "prompt \<Rightarrow> (reply \<Rightarrow> 'a option) \<Rightarrow> world \<Rightarrow> 'a outcome" where
  "app_loop p result w =
     (case replies w of
        [] \<Rightarrow> Awaiting (w\<lparr>shown := shown w @ [p]\<rparr>)
      | r # rs \<Rightarrow>
          if r = Quit then
            (case maybe_quit (w\<lparr>shown := shown w @ [p], replies := rs\<rparr>) of
               Returned u w2 \<Rightarrow> app_loop p result w2
             | Exited w2 \<Rightarrow> Exited w2
             | Raised e w2 \<Rightarrow> Raised e w2
             | Awaiting w2 \<Rightarrow> Awaiting w2)
          else
            (case result r of
               None \<Rightarrow> Awaiting (w\<lparr>shown := shown w @ [p]\<rparr>)
             | Some a \<Rightarrow> Returned a (w\<lparr>shown := shown w @ [p], replies := rs\<rparr>)))"
  by pat_completeness auto
termination
proof (relation "measure (\<lambda>(p, result, w). length (replies w))")
  show "wf (measure (\<lambda>(p, result, w). length (replies w)))" by simp
next
  fix p :: prompt and result :: "reply \<Rightarrow> 'a option" and w w2 :: world
    and r :: reply and rs :: "reply list" and u :: unit
  assume rw: "replies w = r # rs"
    and mq: "maybe_quit (w\<lparr>shown := shown w @ [p], replies := rs\<rparr>) = Returned u w2"
  from mq have "length (replies w2) \<le> length rs"
    by (auto simp: maybe_quit_def Let_def split: list.splits if_splits)
  with rw show "((p, result, w2), (p, result, w)) \<in> measure (\<lambda>(p, result, w). length (replies w))"
    by simp
qed

declare app_loop.simps [simp del]

text \<open>\<open>input_dialog(id, title, text, value, password=...)\<close>: the text, or \<open>False\<close>.\<close>

definition input_dialog :: "string \<Rightarrow> string \<Rightarrow> bool \<Rightarrow> world \<Rightarrow> pyval outcome" where
  "input_dialog ident value password w =
     app_loop (Input_Dialog ident value password)
       (\<lambda>r. case r of Ok_Text t \<Rightarrow> Some (PStr t) | Previous \<Rightarrow> Some (PBool False) | _ \<Rightarrow> None) w"

text \<open>\<open>yesno_dialog(id, title, text)\<close>: the pair \<open>(got_choice, choice)\<close>.\<close>

definition yesno_dialog :: "string \<Rightarrow> world \<Rightarrow> (pyval \<times> pyval) outcome" where
  "yesno_dialog ident w =
     app_loop (YesNo_Dialog ident)
       (\<lambda>r. case r of
               Yes \<Rightarrow> Some (PBool True, PBool True)
             | No \<Rightarrow> Some (PBool True, PBool False)
             | Previous \<Rightarrow> Some (PBool False, PNone)
             | _ \<Rightarrow> None) w"

text \<open>
  \<open>multi_input_dialog(id, title, text, values, value)\<close>. One text field is built for
  each key of \<open>values\<close>, starting with \<open>value[k]\<close>, which raises \<open>KeyError\<close> when
  \<open>value\<close> lacks the key; a starting text that is no \<open>str\<close> is taken to raise
  \<open>TypeError\<close>. The Ok button returns the texts of the fields by key.
\<close>

fun field_texts :: "(string \<times> string) list \<Rightarrow> pydict \<Rightarrow> py_error + (string \<times> string) list" where
  "field_texts [] value = Inr []"
| "field_texts ((k, label) # rest) value =
     (case dict_get value k of
        Inl e \<Rightarrow> Inl e
      | Inr v \<Rightarrow>
          (case v of
             PStr t \<Rightarrow>
               (case field_texts rest value of
                  Inl e \<Rightarrow> Inl e
                | Inr ts \<Rightarrow> Inr ((k, t) # ts))
           | _ \<Rightarrow> Inl (TypeError ''text'')))"

definition multi_input_dialog ::
  "string \<Rightarrow> (string \<times> string) list \<Rightarrow> pydict \<Rightarrow> world \<Rightarrow> (pyval \<times> pyval) outcome" where
  "multi_input_dialog ident values value w =
     (case field_texts values value of
        Inl e \<Rightarrow> Raised e w
      | Inr texts \<Rightarrow>
          app_loop (Multi_Input_Dialog ident values texts)
            (\<lambda>r. case r of
                    Ok_Form edits \<Rightarrow>
                      Some (PBool True,
                        PDict (map (\<lambda>kt. (fst kt,
                          PStr (case map_of edits (fst kt) of Some e \<Rightarrow> e | None \<Rightarrow> snd kt))) texts))
                  | Previous \<Rightarrow> Some (PBool False, PNone)
                  | _ \<Rightarrow> None) w)"

section \<open>Running Terraform\<close>

text \<open>
  \<open>run_terraform_until_ok\<close>. Each pass of the loop starts the command (which sets three
  environment variables), and \<open>run_tasks\<close> waits for both the process and the dialog:
  \<open>return_code\<close> is the exit code and \<open>result\<close> is \<open>True\<close> for the Ok or Retry button,
  \<open>False\<close> for Previous and \<open>None\<close> for Quit. The Ok button does nothing while the
  command runs, so it is pressed only after the exit code is there.
\<close>

function run_terraform_until_ok :: "string list \<Rightarrow> string \<Rightarrow> world \<Rightarrow> pyval outcome" where
  "run_terraform_until_ok cmd dir w =
     (let w1 = w\<lparr>environ := dict_set (dict_set (dict_set (environ w)
                  ''TF_IN_AUTOMATION'' ''1'') ''TF_INPUT'' ''0'') ''TF_CLI_ARGS'' ''-no-color'',
                shown := shown w @ [Terraform_Dialog cmd dir]\<rparr> in
      case exit_codes w1 of
        [] \<Rightarrow> Awaiting w1
      | return_code # codes \<Rightarrow>
          (case replies w1 of
             [] \<Rightarrow> Awaiting w1
           | r # rs \<Rightarrow>
               (case (case r of Ok_Button \<Rightarrow> Some (PBool True) | Previous \<Rightarrow> Some (PBool False)
                      | Quit \<Rightarrow> Some PNone | _ \<Rightarrow> None) of
                  None \<Rightarrow> Awaiting w1
                | Some result \<Rightarrow>
                    (case (if result = PNone then maybe_quit (w1\<lparr>exit_codes := codes, replies := rs\<rparr>)
                           else Returned () (w1\<lparr>exit_codes := codes, replies := rs\<rparr>)) of
                       Returned u w2 \<Rightarrow>
                         if return_code = 0 \<and> truthy result then Returned (PBool True) w2
                         else if \<not> truthy result then Returned (PBool False) w2
                         else run_terraform_until_ok cmd dir w2
                     | Exited w2 \<Rightarrow> Exited w2
                     | Raised e w2 \<Rightarrow> Raised e w2
                     | Awaiting w2 \<Rightarrow> Awaiting w2))))"
  by pat_completeness auto
termination
proof (relation "measure (\<lambda>(cmd, dir, w). length (replies w))")
  show "wf (measure (\<lambda>(cmd, dir, w). length (replies w)))" by simp
next
  fix cmd :: "string list" and dir :: string and w w1 w2 :: world and return_code :: int
    and codes :: "int list" and r :: reply and rs :: "reply list" and result :: pyval
    and u :: unit
  assume w1: "w1 = w\<lparr>environ := dict_set (dict_set (dict_set (environ w)
                  ''TF_IN_AUTOMATION'' ''1'') ''TF_INPUT'' ''0'') ''TF_CLI_ARGS'' ''-no-color'',
                shown := shown w @ [Terraform_Dialog cmd dir]\<rparr>"
    and rw: "replies w1 = r # rs"
    and mq: "(if result = PNone then maybe_quit (w1\<lparr>exit_codes := codes, replies := rs\<rparr>)
              else Returned () (w1\<lparr>exit_codes := codes, replies := rs\<rparr>)) = Returned u w2"
  from mq have "length (replies w2) \<le> length rs"
    by (auto simp: maybe_quit_def Let_def split: list.splits if_splits)
  with rw w1 show "((cmd, dir, w2), (cmd, dir, w)) \<in> measure (\<lambda>(cmd, dir, w). length (replies w))"
    by simp
qed

declare run_terraform_until_ok.simps [simp del]

definition terraform_init :: "string \<Rightarrow> world \<Rightarrow> pyval outcome" where
  "terraform_init dir w =
     run_terraform_until_ok [''terraform'', ''init'', ''-migrate-state'', ''-force-copy''] dir w"

definition terraform_apply :: "string \<Rightarrow> world \<Rightarrow> pyval outcome" where
  "terraform_apply dir w =
     run_terraform_until_ok [''terraform'', ''apply'', ''-auto-approve''] dir w"

section \<open>The wizard steps\<close>

text \<open>Sequencing: what follows a call runs only when the call returns.\<close>

fun and_then :: "'a outcome \<Rightarrow> ('a \<Rightarrow> world \<Rightarrow> 'b outcome) \<Rightarrow> 'b outcome" where
  "and_then (Returned a w) f = f a w"
| "and_then (Exited w) f = Exited w"
| "and_then (Raised e w) f = Raised e w"
| "and_then (Awaiting w) f = Awaiting w"

text \<open>
  \<open>select_gitlab_token\<close> and \<open>select_github_token\<close>. \<open>os.getenv\<close> gives \<open>None\<close> for a
  variable that is not set, and \<open>not\<close> of an empty string is true as well.
\<close>

definition select_gitlab_token :: "world \<Rightarrow> pyval outcome" where
  "select_gitlab_token w =
     (if \<not> (case map_of (environ w) ''GITLAB_TOKEN'' of None \<Rightarrow> False | Some v \<Rightarrow> v \<noteq> []) then
        and_then (input_dialog ''gitlab_url'' '''' True w) (\<lambda>choice w1.
          if truthy choice then
            (case choice of
               PStr t \<Rightarrow>
                 Returned (PBool True) (w1\<lparr>environ := dict_set (environ w1) ''GITLAB_TOKEN'' t\<rparr>)
             | _ \<Rightarrow> Raised (TypeError ''str expected'') w1)
          else Returned (PBool True) w1)
      else Returned (PBool True) w)"

definition select_github_token :: "world \<Rightarrow> pyval outcome" where
  "select_github_token w =
     (if \<not> (case map_of (environ w) ''GITHUB_TOKEN'' of None \<Rightarrow> False | Some v \<Rightarrow> v \<noteq> []) then
        and_then (input_dialog ''github_token'' '''' True w) (\<lambda>choice w1.
          if truthy choice then
            (case choice of
               PStr t \<Rightarrow>
                 Returned (PBool True) (w1\<lparr>environ := dict_set (environ w1) ''GITHUB_TOKEN'' t\<rparr>)
             | _ \<Rightarrow> Raised (TypeError ''str expected'') w1)
          else Returned (PBool True) w1)
      else Returned (PBool True) w)"

text \<open>
  \<open>select_gitlab_repositories\<close> and \<open>select_github_repositories\<close>, which differ in the
  key only. \<open>pop\<close> changes the dictionary that \<open>self.config\<close> holds.
\<close>

fun repository_labels :: "(string \<times> string) list \<Rightarrow> pydict \<Rightarrow> py_error + (string \<times> string) list" where
  "repository_labels values [] = Inr values"
| "repository_labels values ((k, v) # rest) =
     (case dict_get repositories k of
        Inl e \<Rightarrow> Inl e
      | Inr name \<Rightarrow> repository_labels (dict_set values k (name @ '':'')) rest)"

definition pop_modules :: "string \<Rightarrow> world \<Rightarrow> py_error + world" where
  "pop_modules key w =
     (case dict_get (config w) key of
        Inl e \<Rightarrow> Inl e
      | Inr v \<Rightarrow>
          (case v of
             PDict repos \<Rightarrow>
               (case dict_pop repos ''modules'' of
                  Inl e \<Rightarrow> Inl e
                | Inr (popped, repos') \<Rightarrow> Inr (w\<lparr>config := dict_set (config w) key (PDict repos')\<rparr>))
           | _ \<Rightarrow> Inl (AttributeError ''pop'')))"

definition select_repositories :: "string \<Rightarrow> world \<Rightarrow> pyval outcome" where
  "select_repositories key w =
     (case dict_get (config w) ''use_upstream'' of
        Inl e \<Rightarrow> Raised e w
      | Inr use_upstream \<Rightarrow>
          (case (if truthy use_upstream then pop_modules key w else Inr w) of
             Inl e \<Rightarrow> Raised e w
           | Inr w1 \<Rightarrow>
               (case dict_get (config w1) key of
                  Inl e \<Rightarrow> Raised e w1
                | Inr v \<Rightarrow>
                    (case v of
                       PDict repos \<Rightarrow>
                         (case repository_labels [] repos of
                            Inl e \<Rightarrow> Raised e w1
                          | Inr values \<Rightarrow>
                              and_then (multi_input_dialog key values repos w1)
                                (\<lambda>gc w2.
                                   if truthy (fst gc) then
                                     Returned (PBool True)
                                       (w2\<lparr>config := dict_set (config w2) key (snd gc)\<rparr>)
                                   else Returned (PBool False) w2))
                     | _ \<Rightarrow> Raised (AttributeError ''items'') w1))))"

definition select_gitlab_repositories :: "world \<Rightarrow> pyval outcome" where
  "select_gitlab_repositories w = select_repositories ''gitlab_repositories'' w"

definition select_github_repositories :: "world \<Rightarrow> pyval outcome" where
  "select_github_repositories w = select_repositories ''github_repositories'' w"

text \<open>\<open>os.path.dirname\<close> of a POSIX path.\<close>

definition posix_dirname :: "string \<Rightarrow> string" where
  "posix_dirname p =
     (let head = rev (dropWhile (\<lambda>c. c \<noteq> CHR ''/'') (rev p)) in
      if head \<noteq> [] \<and> head \<noteq> replicate (length head) CHR ''/''
      then rev (dropWhile (\<lambda>c. c = CHR ''/'') (rev head))
      else head)"

text \<open>
  \<open>select_terraform\<close> of \<open>FastCicdConfigurator\<close>. \<open>terraform_stage\<close> is the body of its
  loop over the two stages, without the copying of the provider and variable files (the
  file system is not part of the state). The values that \<open>terraform_init\<close> and
  \<open>terraform_apply\<close> return are not used.
\<close>

definition terraform_stage :: "string \<Rightarrow> world \<Rightarrow> unit outcome" where
  "terraform_stage stage w =
     (case dict_get (config w)
             (if stage = ''00-bootstrap'' then ''bootstrap_output_path'' else ''cicd_output_path'') of
        Inl e \<Rightarrow> Raised e w
      | Inr v \<Rightarrow>
          (case v of
             PStr output_path \<Rightarrow>
               and_then (terraform_init (posix_dirname output_path) w) (\<lambda>r1 w1.
                 and_then (terraform_apply (posix_dirname output_path) w1) (\<lambda>r2 w2.
                   Returned () w2))
           | _ \<Rightarrow> Raised (TypeError ''expected str, bytes or os.PathLike object'') w))"

definition select_terraform :: "world \<Rightarrow> pyval outcome" where
  "select_terraform w =
     and_then (yesno_dialog ''terraform'' w) (\<lambda>gc w1.
       if truthy (fst gc) then
         (if truthy (snd gc) then
            and_then (terraform_stage ''00-bootstrap'' w1) (\<lambda>u w2.
              and_then (terraform_stage ''00-cicd'' w2) (\<lambda>u w3.
                Returned (PBool True) w3))
          else Returned (PBool True) w1)
       else Returned (fst gc) w1)"

section \<open>The wizard driver\<close>

text \<open>\<open>xs[i]\<close>: a negative index counts from the end, an index out of range raises.\<close>

definition py_index :: "'a list \<Rightarrow> int \<Rightarrow> py_error + 'a" where
  "py_index xs i =
     (let n = int (length xs); j = (if i < 0 then i + n else i)
      in if 0 \<le> j \<and> j < n then Inr (xs ! nat j) else Inl IndexError)"

text \<open>
  One pass through the body of the loop of \<open>run_wizard\<close>, up to the test that ends the
  loop: the step at \<open>dialog_index\<close> is looked up, its handler is found by name among the
  methods of the object (\<open>getattr\<close>) and called, and the new \<open>dialog_index\<close> is returned.
\<close>

type_synonym methods = "string \<Rightarrow> (world \<Rightarrow> pyval outcome) option"

definition wizard_pass :: "methods \<Rightarrow> string list \<Rightarrow> int \<Rightarrow> world \<Rightarrow> int outcome" where
  "wizard_pass self setup_wizard dialog_index w =
     (case py_index setup_wizard dialog_index of
        Inl e \<Rightarrow> Raised e w
      | Inr dialog \<Rightarrow>
          (case self (''select_'' @ dialog) of
             None \<Rightarrow> Raised (AttributeError (''select_'' @ dialog)) w
           | Some dialog_func \<Rightarrow>
               and_then (dialog_func w) (\<lambda>go_to_next w1.
                 if truthy go_to_next then Returned (dialog_index + 1) w1
                 else Returned (dialog_index - 1) w1)))"

text \<open>
  \<open>run_wizard\<close>. Nothing bounds the number of passes, so the model counts them down
  from \<open>fuel\<close> and gives \<open>None\<close> when the passes allowed are used up.
\<close>

fun run_wizard_from :: "nat \<Rightarrow> methods \<Rightarrow> string list \<Rightarrow> int \<Rightarrow> world \<Rightarrow> pydict outcome option" where
  "run_wizard_from 0 self setup_wizard dialog_index w = None"
| "run_wizard_from (Suc fuel) self setup_wizard dialog_index w =
     (case wizard_pass self setup_wizard dialog_index w of
        Returned i w1 \<Rightarrow>
          if i = int (length setup_wizard) then Some (Returned (config w1) w1)
          else run_wizard_from fuel self setup_wizard i w1
      | Exited w1 \<Rightarrow> Some (Exited w1)
      | Raised e w1 \<Rightarrow> Some (Raised e w1)
      | Awaiting w1 \<Rightarrow> Some (Awaiting w1))"

definition run_wizard :: "nat \<Rightarrow> methods \<Rightarrow> string list \<Rightarrow> world \<Rightarrow> pydict outcome option" where
  "run_wizard fuel self setup_wizard w = run_wizard_from fuel self setup_wizard 0 w"

text \<open>
  \<open>FastCicdConfigurator\<close>: its steps and its step handlers. \<open>select_git\<close> works on the
  file system and with Git, and is a parameter here.
\<close>

definition FastCicdConfigurator_setup_wizard :: "string list" where
  "FastCicdConfigurator_setup_wizard = [''terraform'', ''git'']"

definition FastCicdConfigurator_methods :: "(world \<Rightarrow> pyval outcome) \<Rightarrow> methods" where
  "FastCicdConfigurator_methods select_git name =
     (if name = ''select_terraform'' then Some select_terraform
      else if name = ''select_git'' then Some select_git
      else None)"

section \<open>Notions the properties are stated with\<close>

text \<open>
  A decimal literal and the integer it denotes, and a list of texts joined by a
  separator: what "a number as a decimal literal" and "a comma-separated sequence" mean.
\<close>

definition digit_val :: "char \<Rightarrow> nat" where
  "digit_val c = of_char c - 48"

definition is_digit :: "char \<Rightarrow> bool" where
  "is_digit c = (48 \<le> (of_char c :: nat) \<and> (of_char c :: nat) \<le> 57)"

definition decimal_nat :: "string \<Rightarrow> nat" where
  "decimal_nat ds = foldl (\<lambda>a c. 10 * a + digit_val c) 0 ds"

definition is_decimal_literal :: "string \<Rightarrow> bool" where
  "is_decimal_literal s =
     (case s of
        [] \<Rightarrow> False
      | c # cs \<Rightarrow> if c = CHR ''-'' then cs \<noteq> [] \<and> list_all is_digit cs
                 else list_all is_digit (c # cs))"

definition decimal_int :: "string \<Rightarrow> int" where
  "decimal_int s =
     (case s of
        [] \<Rightarrow> 0
      | c # cs \<Rightarrow> if c = CHR ''-'' then - int (decimal_nat cs) else int (decimal_nat (c # cs)))"

fun join_with :: "string \<Rightarrow> string list \<Rightarrow> string" where
  "join_with sep [] = []"
| "join_with sep [x] = x"
| "join_with sep (x # y # ys) = x @ sep @ join_with sep (y # ys)"

text \<open>
  A configuration as the first wizard hands it on: the bootstrap path it has written
  and the CI/CD system chosen.
\<close>

definition core_config :: pydict where
  "core_config =
     [(''cicd'', PStr ''gitlab-com''),
      (''bootstrap_output_path'', PStr ''stages/00-bootstrap/terraform.tfvars'')]"

text \<open>The state a call ends in.\<close>

fun world_of :: "'a outcome \<Rightarrow> world" where
  "world_of (Returned a w) = w"
| "world_of (Exited w) = w"
| "world_of (Raised e w) = w"
| "world_of (Awaiting w) = w"

text \<open>A credential variable is missing when it is not set or set to the empty string.\<close>

definition token_missing :: "string \<Rightarrow> world \<Rightarrow> bool" where
  "token_missing name w =
     (map_of (environ w) name = None \<or> map_of (environ w) name = Some [])"

text \<open>A state before any dialog has been shown.\<close>

definition start_world :: "pydict \<Rightarrow> (string \<times> string) list \<Rightarrow> reply list \<Rightarrow> int list \<Rightarrow> world" where
  "start_world cfg env rs codes =
     \<lparr>config = cfg, environ = env, replies = rs, exit_codes = codes, shown = []\<rparr>"

text \<open>
  The state after a Terraform command has been started: the three variables are set and
  the dialog of the run is on the screen.
\<close>

definition terraform_started :: "string list \<Rightarrow> string \<Rightarrow> world \<Rightarrow> world" where
  "terraform_started cmd dir w =
     w\<lparr>environ := dict_set (dict_set (dict_set (environ w)
          ''TF_IN_AUTOMATION'' ''1'') ''TF_INPUT'' ''0'') ''TF_CLI_ARGS'' ''-no-color'',
       shown := shown w @ [Terraform_Dialog cmd dir]\<rparr>"

text \<open>
  States of the examples: the CI/CD wizard with the two output paths written by the
  wizards before it, and the states it is in after the operator has answered; the GitLab
  wizard as its constructor leaves it.
\<close>

definition cicd_world :: "reply list \<Rightarrow> int list \<Rightarrow> world" where
  "cicd_world rs codes =
     start_world
       [(''bootstrap_output_path'', PStr ''stages/00-bootstrap/terraform.tfvars''),
        (''cicd_output_path'', PStr ''stages/00-cicd/terraform.tfvars'')]
       [] rs codes"

definition after_failed_terraform :: world where
  "after_failed_terraform =
   \<lparr>config = [(''bootstrap_output_path'', PStr ''stages/00-bootstrap/terraform.tfvars''),
        (''cicd_output_path'', PStr ''stages/00-cicd/terraform.tfvars'')],
    environ = [(''TF_IN_AUTOMATION'', ''1''), (''TF_INPUT'', ''0''), (''TF_CLI_ARGS'', ''-no-color'')],
    replies = [], exit_codes = [],
    shown = [YesNo_Dialog ''terraform'',
       Terraform_Dialog [''terraform'', ''init'', ''-migrate-state'', ''-force-copy''] ''stages/00-bootstrap'',
       Terraform_Dialog [''terraform'', ''apply'', ''-auto-approve''] ''stages/00-bootstrap'',
       Terraform_Dialog [''terraform'', ''init'', ''-migrate-state'', ''-force-copy''] ''stages/00-cicd'',
       Terraform_Dialog [''terraform'', ''apply'', ''-auto-approve''] ''stages/00-cicd'']\<rparr>"

definition after_previous :: world where
  "after_previous =
   \<lparr>config = [(''bootstrap_output_path'', PStr ''stages/00-bootstrap/terraform.tfvars''),
        (''cicd_output_path'', PStr ''stages/00-cicd/terraform.tfvars'')],
    environ = [], replies = [], exit_codes = [],
    shown = [YesNo_Dialog ''terraform'']\<rparr>"

definition gitlab_world :: "reply list \<Rightarrow> world" where
  "gitlab_world rs = start_world (FastGitlabConfigurator_init core_config) [] rs []"

text \<open>
  A configuration with the values of other types replaced by values of other types
  again (\<open>f\<close> renames the types), at any depth.
\<close>

fun rename_objects :: "(string \<Rightarrow> string) \<Rightarrow> pyval \<Rightarrow> pyval"
  and rename_list :: "(string \<Rightarrow> string) \<Rightarrow> pyval list \<Rightarrow> pyval list"
  and rename_items :: "(string \<Rightarrow> string) \<Rightarrow> (string \<times> pyval) list \<Rightarrow> (string \<times> pyval) list" where
  "rename_objects f (PObject t) = PObject (f t)"
| "rename_objects f (PList vs) = PList (rename_list f vs)"
| "rename_objects f (PDict kvs) = PDict (rename_items f kvs)"
| "rename_objects f PNone = PNone"
| "rename_objects f (PBool b) = PBool b"
| "rename_objects f (PInt i) = PInt i"
| "rename_objects f (PFloat x) = PFloat x"
| "rename_objects f (PStr s) = PStr s"
| "rename_list f [] = []"
| "rename_list f (v # vs) = rename_objects f v # rename_list f vs"
| "rename_items f [] = []"
| "rename_items f ((k, v) # kvs) = (k, rename_objects f v) # rename_items f kvs"

text \<open>
  Reading a string literal back, by undoing the escaping that \<open>print_hcl_scalar\<close> does:
  the literal starts at a double quote; after it a backslash followed by a double quote
  stands for a double quote, any other character stands for itself, and a double quote
  ends the literal. The result is the string read and the text after the literal, or
  \<open>None\<close> when the text does not start with a double quote or the literal does not end.
\<close>

fun read_string_body :: "string \<Rightarrow> (string \<times> string) option" where
  "read_string_body [] = None"
| "read_string_body [c] = (if c = DQ then Some ([], []) else None)"
| "read_string_body (c # d # cs) =
     (if c = DQ then Some ([], d # cs)
      else if c = CHR 0x5C \<and> d = DQ then
        map_option (\<lambda>(s, r). (DQ # s, r)) (read_string_body cs)
      else map_option (\<lambda>(s, r). (c # s, r)) (read_string_body (d # cs)))"

definition read_string :: "string \<Rightarrow> (string \<times> string) option" where
  "read_string t = (case t of [] \<Rightarrow> None | c # cs \<Rightarrow> if c = DQ then read_string_body cs else None)"

section \<open>Properties of the module source rewrite\<close>

lemma source_re_match_decomp:
  assumes a: "source_re_match s = Some (g1, g2, g3, rest)"
  shows "s = g1 @ g2 @ g3 @ rest"
proof -
  let ?r1 = "drop 6 s"
  let ?r2 = "dropWhile re_space ?r1"
  from a have t: "take 6 s = ''source''"
    by (auto simp: source_re_match_def split: if_splits)
  from a t obtain e r3 where r2: "?r2 = e # r3"
    by (cases ?r2) (auto simp: source_re_match_def Let_def)
  let ?r4 = "dropWhile re_space r3"
  from a t r2 have e: "e = CHR ''=''"
    by (auto simp: source_re_match_def Let_def split: if_splits)
  from a t r2 e obtain q r5 where r4: "?r4 = q # r5"
    by (cases ?r4) (auto simp: source_re_match_def Let_def)
  from a t r2 e r4 have q: "q = DQ"
    by (auto simp: source_re_match_def Let_def split: if_splits)
  from a t r2 e r4 q obtain c r6 where r5: "r5 = c # r6"
    by (cases r5) (auto simp: source_re_match_def Let_def)
  let ?mid = "takeWhile (\<lambda>x. x \<noteq> DQ) r6"
  let ?r7 = "dropWhile (\<lambda>x. x \<noteq> DQ) r6"
  from a t r2 e r4 q r5 have res: "rest = tl ?r7" and ne: "?r7 \<noteq> []"
    and g1: "g1 = ''source'' @ takeWhile re_space ?r1 @ ''='' @ takeWhile re_space r3 @ [DQ]"
    and g2: "g2 = c # ?mid" and g3: "g3 = [DQ]"
    by (auto simp: source_re_match_def Let_def split: if_splits)
  from ne have "hd ?r7 = DQ" using hd_dropWhile [of "\<lambda>x. x \<noteq> DQ" r6] by simp
  with ne res have r7: "?r7 = DQ # rest" by (cases ?r7) auto
  have s1: "s = take 6 s @ ?r1" by simp
  have s2: "?r1 = takeWhile re_space ?r1 @ ?r2" by simp
  have s3: "r3 = takeWhile re_space r3 @ ?r4" by simp
  have s4: "r6 = ?mid @ ?r7" by simp
  have "s = ''source'' @ takeWhile re_space ?r1 @ (CHR ''='' # takeWhile re_space r3 @ (DQ # c # ?mid @ DQ # rest))"
    using s1 s2 s3 s4 t r2 e r4 q r5 r7 by metis
  then show ?thesis by (simp add: g1 g2 g3)
qed

lemma re_sub_source_id:
  assumes f: "\<And>g1 g2 g3. f (g1, g2, g3) = g1 @ f' g2 @ g3"
  shows "(\<forall>m \<in> set (re_sources line). f' m = m) \<Longrightarrow> re_sub_source f line = line"
proof (induction line rule: re_finditer.induct)
  case 1
  then show ?case by (simp add: re_sub_source_def)
next
  case (2 c cs)
  show ?case
  proof (cases "source_re_match (c # cs)")
    case None
    with 2 show ?thesis by (simp add: re_sub_source_def re_sources_def)
  next
    case (Some m)
    obtain g1 g2 g3 rest where m: "m = (g1, g2, g3, rest)" by (cases m) auto
    from Some m have d: "c # cs = g1 @ g2 @ g3 @ rest" by (simp add: source_re_match_decomp)
    from 2 Some m have "re_sub_source f rest = rest" by (simp add: re_sources_def)
    moreover from 2(3) Some m have "f' g2 = g2" by (simp add: re_sources_def)
    moreover have "re_sub_source f (c # cs) = f (g1, g2, g3) @ re_sub_source f rest"
      using Some m by (simp add: re_sub_source_def)
    ultimately show ?thesis using d f by simp
  qed
qed

lemma network_line_match:
  "source_re_match network_line = Some (''source = '' @ [DQ], ''../modules/network'', [DQ], [])"
  by code_simp

lemma network_line_sub:
  "re_sub_source f network_line = f (''source = '' @ [DQ], ''../modules/network'', [DQ])"
proof -
  have "network_line = CHR ''s'' # tl network_line" by code_simp
  then have "re_finditer network_line = [Matched (''source = '' @ [DQ]) ''../modules/network'' [DQ]]"
    using network_line_match re_finditer.simps(2) [of "CHR ''s''" "tl network_line"] by simp
  then show ?thesis by (simp add: re_sub_source_def)
qed

lemma network_source_contains: "py_contains ''../modules'' ''../modules/network''"
  by code_simp

lemma network_source_replace: "py_replace ''../'' '''' ''../modules/network'' = ''modules/network''"
  by code_simp

text \<open>
  C7 (as amended). The repository is passed without the \<open>git::\<close> prefix, which the code
  adds itself: for the line \<open>source = "../modules/network"\<close>, a target repository \<open>t\<close> and
  a non-empty tag the result is \<open>source = "git::t//modules/network?ref=tag"\<close>; with no tag
  (or an empty one) the \<open>?ref=\<close> suffix is left out; and a line none of whose matched
  source strings contains \<open>../modules\<close> is returned unchanged, and so is a file all of
  whose lines are such.
\<close>

theorem change_module_source_rewrite:
  "change_module_source_line t (Some (v # vs)) network_line =
     ''source = '' @ [DQ] @ ''git::'' @ t @ ''//modules/network?ref='' @ (v # vs) @ [DQ]
   \<and> change_module_source_line t None network_line =
     ''source = '' @ [DQ] @ ''git::'' @ t @ ''//modules/network'' @ [DQ]
   \<and> change_module_source_line t (Some []) network_line =
     ''source = '' @ [DQ] @ ''git::'' @ t @ ''//modules/network'' @ [DQ]
   \<and> ((\<forall>m \<in> set (re_sources line). \<not> py_contains ''../modules'' m) \<longrightarrow>
        change_module_source_line t tag line = line)
   \<and> ((\<forall>l \<in> set lines. \<forall>m \<in> set (re_sources l). \<not> py_contains ''../modules'' m) \<longrightarrow>
        change_module_source lines t tag = lines)"
proof -
  have all: "(\<forall>m \<in> set (re_sources l). \<not> py_contains ''../modules'' m) \<longrightarrow>
        change_module_source_line t tag l = l" for l
  proof
    assume h: "\<forall>m \<in> set (re_sources l). \<not> py_contains ''../modules'' m"
    let ?f' = "\<lambda>m. if py_contains ''../modules'' m
       then (let ms2 = ''git::'' @ t @ ''//'' @ py_replace ''../'' [] m
             in (case tag of None \<Rightarrow> ms2 | Some r \<Rightarrow> if r \<noteq> [] then ms2 @ ''?ref='' @ r else ms2))
       else m"
    from h have "\<forall>m \<in> set (re_sources l). ?f' m = m" by simp
    moreover have "\<And>g1 g2 g3. change_module_source_sub t tag (g1, g2, g3) = g1 @ ?f' g2 @ g3"
      by (simp add: change_module_source_sub_def Let_def)
    ultimately show "change_module_source_line t tag l = l"
      unfolding change_module_source_line_def by (rule re_sub_source_id [rotated])
  qed
  have whole: "(\<forall>l \<in> set lines. \<forall>m \<in> set (re_sources l). \<not> py_contains ''../modules'' m) \<longrightarrow>
        change_module_source lines t tag = lines"
    using all by (simp add: change_module_source_def map_idI)
  show ?thesis
    using all [of line] whole
    by (simp add: change_module_source_line_def network_line_sub change_module_source_sub_def
        network_source_contains network_source_replace)
qed

text \<open>
  C7, witness: a line with a local source is unchanged, and the two results for the
  repository \<open>https://example/repo.git\<close>.
\<close>

theorem change_module_source_rewrite_witness:
  "\<not> py_contains ''../modules'' ''./local''
   \<and> re_sources (''source = '' @ [DQ] @ ''./local'' @ [DQ, NL]) = [''./local'']
   \<and> change_module_source_line ''https://example/repo.git'' (Some ''v1.2.3'') (''source = '' @ [DQ] @ ''./local'' @ [DQ, NL])
       = ''source = '' @ [DQ] @ ''./local'' @ [DQ, NL]
   \<and> change_module_source_line ''https://example/repo.git'' (Some ''v1.2.3'') network_line =
      ''source = '' @ [DQ] @ ''git::https://example/repo.git//modules/network?ref=v1.2.3'' @ [DQ]
   \<and> change_module_source_line ''https://example/repo.git'' None network_line =
      ''source = '' @ [DQ] @ ''git::https://example/repo.git//modules/network'' @ [DQ]"
proof -
  have r: "re_sources (''source = '' @ [DQ] @ ''./local'' @ [DQ, NL]) = [''./local'']"
    by code_simp
  have n: "\<not> py_contains ''../modules'' ''./local''" by code_simp
  from r n have h: "\<forall>m \<in> set (re_sources (''source = '' @ [DQ] @ ''./local'' @ [DQ, NL])). \<not> py_contains ''../modules'' m"
    by simp
  show ?thesis
    using h r n change_module_source_rewrite [of "''https://example/repo.git''" "CHR ''v''" "''1.2.3''"
        "''source = '' @ [DQ] @ ''./local'' @ [DQ, NL]" "Some ''v1.2.3''"]
    by simp
qed

text \<open>
  C7, counterexample: with the target repository written \<open>git::https://example/repo.git\<close>
  the prefix appears twice in the result.
\<close>

theorem change_module_source_git_prefix_counterexample:
  "change_module_source_line ''git::https://example/repo.git'' (Some ''v1.2.3'') network_line
     \<noteq> ''source = '' @ [DQ] @ ''git::https://example/repo.git//modules/network?ref=v1.2.3'' @ [DQ]
   \<and> change_module_source_line ''git::https://example/repo.git'' (Some ''v1.2.3'') network_line
     = ''source = '' @ [DQ] @ ''git::git::https://example/repo.git//modules/network?ref=v1.2.3'' @ [DQ]"
  by code_simp


section \<open>Properties of the serializer\<close>

lemma digit_val_digit_char: "d < 10 \<Longrightarrow> digit_val (digit_char d) = d"
  by (simp add: digit_val_def digit_char_def)

lemma is_digit_digit_char: "d < 10 \<Longrightarrow> is_digit (digit_char d)"
  by (simp add: is_digit_def digit_char_def)

lemma digit_char_not_minus: "d < 10 \<Longrightarrow> digit_char d \<noteq> CHR ''-''"
proof
  assume d: "d < 10" and "digit_char d = CHR ''-''"
  then have "(of_char (digit_char d) :: nat) = of_char CHR ''-''" by simp
  with d show False by (simp add: digit_char_def)
qed

lemma decimal_nat_snoc: "decimal_nat (ds @ [c]) = 10 * decimal_nat ds + digit_val c"
  by (simp add: decimal_nat_def)

lemma str_nat_digits: "list_all is_digit (str_nat n) \<and> str_nat n \<noteq> [] \<and> decimal_nat (str_nat n) = n"
proof (induction n rule: str_nat.induct)
  case (1 n)
  show ?case
  proof (cases "n < 10")
    case True
    then show ?thesis
      by (simp add: str_nat.simps [of n] is_digit_digit_char decimal_nat_def digit_val_digit_char)
  next
    case False
    with 1 have ih: "list_all is_digit (str_nat (n div 10))" "decimal_nat (str_nat (n div 10)) = n div 10"
      by simp_all
    have m: "n mod 10 < 10" by simp
    from False have s: "str_nat n = str_nat (n div 10) @ [digit_char (n mod 10)]"
      by (simp add: str_nat.simps [of n])
    show ?thesis
      using ih m by (simp add: s decimal_nat_snoc is_digit_digit_char digit_val_digit_char)
  qed
qed

lemma str_nat_hd_not_minus: "hd (str_nat n) \<noteq> CHR ''-''"
proof -
  have "list_all is_digit (str_nat n)" "str_nat n \<noteq> []" using str_nat_digits by auto
  then have "is_digit (hd (str_nat n))" by (cases "str_nat n") auto
  then show ?thesis by (auto simp: is_digit_def)
qed

lemma str_int_decimal: "is_decimal_literal (str_int i) \<and> decimal_int (str_int i) = i"
proof (cases "i < 0")
  case True
  then show ?thesis
    using str_nat_digits [of "nat (- i)"]
    by (simp add: str_int_def is_decimal_literal_def decimal_int_def)
next
  case False
  obtain c cs where s: "str_nat (nat i) = c # cs"
    using str_nat_digits [of "nat i"] by (cases "str_nat (nat i)") auto
  with str_nat_hd_not_minus [of "nat i"] have c: "c \<noteq> CHR ''-''" by simp
  show ?thesis
    using False s c str_nat_digits [of "nat i"]
    by (simp add: str_int_def is_decimal_literal_def decimal_int_def)
qed

lemma py_replace_quote:
  "py_replace [DQ] [CHR 0x5C, DQ] s = concat (map (\<lambda>c. if c = DQ then [CHR 0x5C, DQ] else [c]) s)"
proof (induction s)
  case Nil
  show ?case by (simp add: py_replace.simps [of _ _ "[]"])
next
  case (Cons c cs)
  then show ?case by (simp add: py_replace.simps [of _ _ "c # cs"])
qed

lemma print_hcl_list_False:
  "print_hcl_list False vs = concat (map (\<lambda>v. '', '' @ print_hcl_scalar v) vs)"
  by (induction vs) simp_all

lemma join_with_Cons:
  "join_with sep (x # xs) = x @ concat (map (\<lambda>y. sep @ y) xs)"
  by (induction xs arbitrary: x) simp_all

lemma print_hcl_list_join:
  "print_hcl_list True vs = join_with '', '' (map print_hcl_scalar vs)"
proof (cases vs)
  case Nil
  then show ?thesis by simp
next
  case (Cons v ws)
  then show ?thesis
    by (simp add: print_hcl_list_False join_with_Cons comp_def)
qed

lemma str_float_point_or_exponent:
  "CHR ''.'' \<in> set (str_float (FNum neg ds decpt)) \<or> CHR ''e'' \<in> set (str_float (FNum neg ds decpt))"
  by (simp add: str_float_def)

lemma is_decimal_literal_chars:
  "is_decimal_literal s \<Longrightarrow> c \<in> set s \<Longrightarrow> c = CHR ''-'' \<or> is_digit c"
  by (cases s) (auto simp: is_decimal_literal_def list_all_iff split: if_splits)

lemma str_float_not_decimal_literal: "\<not> is_decimal_literal (str_float x)"
proof (cases x)
  case FNan
  then show ?thesis by (simp add: str_float_def is_decimal_literal_def is_digit_def)
next
  case (FInf neg)
  then show ?thesis by (simp add: str_float_def is_decimal_literal_def is_digit_def)
next
  case (FNum neg ds decpt)
  show ?thesis
  proof
    assume a: "is_decimal_literal (str_float x)"
    from str_float_point_or_exponent [of neg ds decpt] FNum
    consider "CHR ''.'' \<in> set (str_float x)" | "CHR ''e'' \<in> set (str_float x)" by auto
    then show False
    proof cases
      case 1
      from is_decimal_literal_chars [OF a 1] show False by (simp add: is_digit_def)
    next
      case 2
      from is_decimal_literal_chars [OF a 2] show False by (simp add: is_digit_def)
    qed
  qed
qed

text \<open>
  C4 (as amended). \<open>None\<close> is written as \<open>null\<close>; a boolean as \<open>true\<close> or \<open>false\<close>; an
  integer as its decimal literal, of digits only after an optional minus sign (no
  fractional part), which denotes the integer; a float as \<open>str\<close> gives it, which is
  never such a literal: \<open>nan\<close>, \<open>inf\<close> or \<open>-inf\<close> when it is not finite, and otherwise
  digits with a point or an exponent, so that \<open>1.0\<close> keeps its \<open>.0\<close> and ten to the
  sixteenth is \<open>1e+16\<close>; a string between double quotes, each double quote inside it
  preceded by a backslash; a list as its elements' renderings, separated by a comma and a
  space, between brackets; and the mapping \<open>{"a": 1, "b": {"c": true}}\<close> with \<open>a\<close>
  before \<open>b\<close> and \<open>c = true\<close> inside the block of \<open>b\<close>, two spaces further in.
\<close>

theorem print_hcl_scalar_renders:
  "print_hcl_scalar PNone = ''null''
   \<and> print_hcl_scalar (PBool True) = ''true''
   \<and> print_hcl_scalar (PBool False) = ''false''
   \<and> print_hcl_scalar (PInt i) = str_int i
   \<and> is_decimal_literal (str_int i) \<and> decimal_int (str_int i) = i
   \<and> print_hcl_scalar (PFloat x) = str_float x
   \<and> \<not> is_decimal_literal (str_float x)
   \<and> (CHR ''.'' \<in> set (str_float (FNum neg ds decpt)) \<or>
       CHR ''e'' \<in> set (str_float (FNum neg ds decpt)))
   \<and> str_float FNan = ''nan''
   \<and> str_float (FInf False) = ''inf''
   \<and> str_float (FInf True) = ''-inf''
   \<and> str_float (FNum False [1] 1) = ''1.0''
   \<and> str_float (FNum False [1, 2, 3, 4, 5] 3) = ''123.45''
   \<and> str_float (FNum False [1] (- 3)) = ''0.0001''
   \<and> str_float (FNum False [1] 17) = ''1e+16''
   \<and> str_float (FNum True [2, 5] (- 6)) = ''-2.5e-07''
   \<and> print_hcl_scalar (PStr s) =
       [DQ] @ concat (map (\<lambda>c. if c = DQ then [CHR 0x5C, DQ] else [c]) s) @ [DQ]
   \<and> print_hcl_scalar (PList vs) = ''['' @ join_with '', '' (map print_hcl_scalar vs) @ '']''
   \<and> print_hcl (PDict [(''a'', PInt 1), (''b'', PDict [(''c'', PBool True)])]) 0 =
       ''a = 1'' @ [NL] @ ''b =   {'' @ [NL] @ ''  c = true'' @ [NL] @ ''  }'' @ [NL, NL, NL]"
proof -
  have ex: "print_hcl (PDict [(''a'', PInt 1), (''b'', PDict [(''c'', PBool True)])]) 0 =
       ''a = 1'' @ [NL] @ ''b =   {'' @ [NL] @ ''  c = true'' @ [NL] @ ''  }'' @ [NL, NL, NL]"
    by code_simp
  have fl: "str_float FNan = ''nan''" "str_float (FInf False) = ''inf''"
    "str_float (FInf True) = ''-inf''" "str_float (FNum False [1] 1) = ''1.0''"
    "str_float (FNum False [1, 2, 3, 4, 5] 3) = ''123.45''"
    "str_float (FNum False [1] (- 3)) = ''0.0001''"
    "str_float (FNum False [1] 17) = ''1e+16''"
    "str_float (FNum True [2, 5] (- 6)) = ''-2.5e-07''"
    by code_simp+
  have basic: "print_hcl_scalar PNone = ''null''" "print_hcl_scalar (PBool True) = ''true''"
    "print_hcl_scalar (PBool False) = ''false''" "print_hcl_scalar (PInt i) = str_int i"
    "print_hcl_scalar (PFloat x) = str_float x"
    by simp_all
  have str: "print_hcl_scalar (PStr s) =
       [DQ] @ concat (map (\<lambda>c. if c = DQ then [CHR 0x5C, DQ] else [c]) s) @ [DQ]"
    by (simp add: py_replace_quote)
  have lst: "print_hcl_scalar (PList vs) = ''['' @ join_with '', '' (map print_hcl_scalar vs) @ '']''"
    by (simp add: print_hcl_list_join)
  note dec = str_int_decimal [of i]
  note all = ex fl basic str lst dec [THEN conjunct1] dec [THEN conjunct2]
    str_float_not_decimal_literal [of x] str_float_point_or_exponent [of neg ds decpt]
  show ?thesis by (intro conjI) (rule all)+
qed

text \<open>
  C4, counterexample: the floats that are not finite are numbers written with no digit
  at all, and the float \<open>1.0\<close>, an integer, is written with a fractional part.
\<close>

theorem print_hcl_scalar_float_counterexample:
  "print_hcl_scalar (PFloat FNan) = ''nan''
   \<and> print_hcl_scalar (PFloat (FInf True)) = ''-inf''
   \<and> \<not> list_ex is_digit (print_hcl_scalar (PFloat FNan))
   \<and> \<not> list_ex is_digit (print_hcl_scalar (PFloat (FInf True)))
   \<and> print_hcl_scalar (PFloat (FNum False [1] 1)) = ''1.0''
   \<and> print_hcl (PDict [(''a'', PFloat FNan)]) 0 = ''a = nan'' @ [NL, NL]"
  by code_simp

lemma print_hcl_items_append:
  "print_hcl_items (xs @ ys) n = print_hcl_items xs n @ print_hcl_items ys n"
  by (induction xs) auto

lemma print_hcl_list_append_False:
  "print_hcl_list False (xs @ ys) = print_hcl_list False xs @ print_hcl_list False ys"
  by (induction xs) auto

lemma print_hcl_scalar_rename:
  "print_hcl_scalar (rename_objects f v) = print_hcl_scalar v"
  "print_hcl_list first (rename_list f vs) = print_hcl_list first vs"
  by (induction v and first vs rule: print_hcl_scalar_print_hcl_list.induct) simp_all

lemma print_hcl_rename:
  "print_hcl (rename_objects f v) n = print_hcl v n"
  "print_hcl_items (rename_items f kvs) n = print_hcl_items kvs n"
  by (induction v n and kvs n rule: print_hcl_print_hcl_items.induct)
    (simp_all add: print_hcl_scalar_rename)

text \<open>
  C2 (as amended). Serialization signals no error for a value of another type: nothing
  is written for the value itself, so in a mapping its key is followed by the end of the
  line and in a list it is an empty element, and the entries before and after it are
  written as they are without it. Nothing in the text written identifies such a value
  or its key path: the text is the same whatever the values of other types are, at any
  depth of the configuration.
\<close>

theorem print_hcl_unsupported_silent:
  "print_hcl_scalar (PObject t) = []
   \<and> print_hcl (PObject t) n = [NL]
   \<and> print_hcl_items (before @ (k, PObject t) # after) n =
       print_hcl_items before n @ hcl_indent n @ k @ '' = '' @ [NL] @ print_hcl_items after n
   \<and> print_hcl_scalar (PList (v # vs @ PObject t # ws)) =
       ''['' @ print_hcl_list True (v # vs) @ '', '' @ print_hcl_list False ws @ '']''
   \<and> print_hcl (rename_objects f c) n = print_hcl c n"
proof -
  have items: "print_hcl_items (before @ (k, PObject t) # after) n =
       print_hcl_items before n @ hcl_indent n @ k @ '' = '' @ [NL] @ print_hcl_items after n"
    by (simp add: print_hcl_items_append)
  have elems: "print_hcl_scalar (PList (v # vs @ PObject t # ws)) =
       ''['' @ print_hcl_list True (v # vs) @ '', '' @ print_hcl_list False ws @ '']''"
    by (simp add: print_hcl_list_append_False)
  have any: "print_hcl (rename_objects f c) n = print_hcl c n"
    by (rule print_hcl_rename)
  from items elems any show ?thesis by simp
qed

text \<open>
  C2, counterexample: a mapping that holds a tuple is written to the end, with an empty
  right-hand side for the key of the tuple.
\<close>

theorem print_hcl_unsupported_counterexample:
  "print_hcl (PDict [(''a'', PObject ''tuple''), (''b'', PInt 1)]) 0 =
     ''a = '' @ [NL] @ ''b = 1'' @ [NL, NL]"
  by code_simp

lemma read_string_body_quote: "read_string_body (DQ # r) = Some ([], r)"
  by (cases r) simp_all

lemma read_string_body_escaped:
  "CHR 0x5C \<notin> set s \<Longrightarrow>
   read_string_body (concat (map (\<lambda>c. if c = DQ then [CHR 0x5C, DQ] else [c]) s) @ DQ # r) = Some (s, r)"
proof (induction s)
  case Nil
  show ?case by (simp add: read_string_body_quote)
next
  case (Cons c s)
  let ?t = "concat (map (\<lambda>c. if c = DQ then [CHR 0x5C, DQ] else [c]) s) @ DQ # r"
  from Cons have ih: "read_string_body ?t = Some (s, r)" and c: "c \<noteq> CHR 0x5C" by auto
  obtain d ds where t: "?t = d # ds" by (cases ?t) auto
  show ?case
  proof (cases "c = DQ")
    case True
    then show ?thesis using ih by simp
  next
    case False
    have "read_string_body (c # ?t) = map_option (\<lambda>(s, r). (c # s, r)) (read_string_body ?t)"
      using False c by (simp only: t read_string_body.simps if_False simp_thms)
    with ih False show ?thesis by simp
  qed
qed

lemma escaped_head:
  "\<exists>d ds. concat (map (\<lambda>c. if c = DQ then [CHR 0x5C, DQ] else [c]) s) @ [CHR 0x5C, DQ] = d # ds \<and> d \<noteq> DQ"
  by (cases s) auto

lemma read_string_body_backslash:
  "read_string_body (concat (map (\<lambda>c. if c = DQ then [CHR 0x5C, DQ] else [c]) s) @ [CHR 0x5C, DQ]) = None"
proof (induction s)
  case Nil
  show ?case by simp
next
  case (Cons c s)
  let ?t = "concat (map (\<lambda>c. if c = DQ then [CHR 0x5C, DQ] else [c]) s) @ [CHR 0x5C, DQ]"
  obtain d ds where t: "?t = d # ds" and d: "d \<noteq> DQ" using escaped_head [of s] by blast
  show ?case
  proof (cases "c = DQ")
    case True
    then show ?thesis using Cons by simp
  next
    case False
    have "read_string_body (c # ?t) = map_option (\<lambda>(s, r). (c # s, r)) (read_string_body ?t)"
      using False d by (simp only: t read_string_body.simps if_False simp_thms)
    with Cons False show ?thesis by simp
  qed
qed

text \<open>
  C3. A backslash in a string is written as it is, although the double quote is
  escaped with one. A resource prefix that ends in a backslash, as the operator can type
  it, is written as a literal whose closing quote follows the backslash. Read back, the
  closing quote of a string that ends in a backslash is an escaped quote: the literal of
  no such string is read back, and in a list the literal runs on into the next element.
  A string with no backslash is read back as it was.
\<close>

theorem print_hcl_backslash_not_escaped:
  "print_hcl (PDict [(''prefix'', PStr (''fast'' @ [CHR 0x5C]))]) 0 =
     ''prefix = '' @ [DQ] @ ''fast'' @ [CHR 0x5C, DQ, NL, NL]
   \<and> read_string (print_hcl_scalar (PStr (s @ [CHR 0x5C]))) = None
   \<and> read_string (print_hcl_list True [PStr [CHR 0x5C], PStr ''b'']) =
       Some ([DQ] @ '', '', ''b'' @ [DQ])
   \<and> (CHR 0x5C \<notin> set t \<longrightarrow> read_string (print_hcl_scalar (PStr t) @ r) = Some (t, r))"
proof -
  have a: "print_hcl (PDict [(''prefix'', PStr (''fast'' @ [CHR 0x5C]))]) 0 =
     ''prefix = '' @ [DQ] @ ''fast'' @ [CHR 0x5C, DQ, NL, NL]"
    by code_simp
  have b: "read_string (print_hcl_scalar (PStr (s @ [CHR 0x5C]))) = None"
    using read_string_body_backslash [of s]
    by (simp add: py_replace_quote read_string_def)
  have c: "read_string (print_hcl_list True [PStr [CHR 0x5C], PStr ''b'']) =
       Some ([DQ] @ '', '', ''b'' @ [DQ])"
    by code_simp
  have d: "CHR 0x5C \<notin> set t \<longrightarrow> read_string (print_hcl_scalar (PStr t) @ r) = Some (t, r)"
    using read_string_body_escaped [of t r]
    by (simp add: py_replace_quote read_string_def)
  from a b c d show ?thesis by (intro conjI)
qed

text \<open>
  C3, at a string with a double quote and no backslash, which is read back, and at the
  same string followed by a backslash, which is not.
\<close>

theorem print_hcl_backslash_not_escaped_witness:
  "CHR 0x5C \<notin> set (''fa'' @ [DQ] @ ''st'')
   \<and> read_string (print_hcl_scalar (PStr (''fa'' @ [DQ] @ ''st'')) @ [NL]) =
       Some (''fa'' @ [DQ] @ ''st'', [NL])
   \<and> read_string (print_hcl_scalar (PStr ((''fa'' @ [DQ] @ ''st'') @ [CHR 0x5C]))) = None"
  using print_hcl_backslash_not_escaped [of "''fa'' @ [DQ] @ ''st''" "''fa'' @ [DQ] @ ''st''" "[NL]"]
  by simp

section \<open>Properties of the configurators' constructors\<close>

lemma map_of_dict_set: "map_of (dict_set d k v) = (map_of d)(k \<mapsto> v)"
  by (induction d) auto

lemma map_of_dict_merge:
  "distinct (map fst b) \<Longrightarrow> map_of (dict_merge a b) = map_of a ++ map_of b"
proof (induction b arbitrary: a)
  case Nil
  then show ?case by (simp add: dict_merge_def)
next
  case (Cons kv b)
  obtain k v where kv: "kv = (k, v)" by (cases kv)
  from Cons.prems kv have nk: "k \<notin> dom (map_of b)" and d: "distinct (map fst b)"
    by (auto simp: dom_map_of_conv_image_fst)
  have "map_of (dict_merge a (kv # b)) = map_of (dict_merge (dict_set a k v) b)"
    by (simp add: dict_merge_def kv)
  also have "\<dots> = (map_of a)(k \<mapsto> v) ++ map_of b"
    using Cons.IH [OF d, of "dict_set a k v"] by (simp only: map_of_dict_set)
  also have "\<dots> = map_of a ++ map_of (kv # b)"
    using nk by (auto simp: kv map_add_def fun_eq_iff split: option.splits)
  finally show ?case .
qed

lemma lookup_dict_merge:
  "distinct (map fst b) \<Longrightarrow>
   map_of (dict_merge a b) k = (case map_of b k of Some v \<Rightarrow> Some v | None \<Rightarrow> map_of a k)"
  by (simp add: map_of_dict_merge map_add_def)

text \<open>
  C5 (as amended). The merge is shallow and the incoming configuration wins: for every
  key the incoming configuration holds, the later wizard starts with the incoming value,
  whatever its own defaults say; its defaults stand for the other keys only. The one
  exception is the key of the repository names, which the constructor sets afterwards.
\<close>

theorem wizard_seed_merge:
  "distinct (map fst incoming) \<Longrightarrow>
   map_of (FastCicdConfigurator_init incoming) k =
     (case map_of incoming k of Some v \<Rightarrow> Some v | None \<Rightarrow> map_of FastCicdConfigurator_config k)
   \<and> (k \<noteq> ''gitlab_repositories'' \<longrightarrow>
        map_of (FastGitlabConfigurator_init incoming) k =
          (case map_of incoming k of Some v \<Rightarrow> Some v
           | None \<Rightarrow> (case map_of FastDialogs_config k of Some v \<Rightarrow> Some v
                       | None \<Rightarrow> map_of FastGitlabConfigurator_config k)))
   \<and> (k \<noteq> ''github_repositories'' \<longrightarrow>
        map_of (FastGithubConfigurator_init incoming) k =
          (case map_of incoming k of Some v \<Rightarrow> Some v
           | None \<Rightarrow> (case map_of FastDialogs_config k of Some v \<Rightarrow> Some v
                       | None \<Rightarrow> map_of FastGithubConfigurator_config k)))"
proof -
  assume d: "distinct (map fst incoming)"
  have fd: "distinct (map fst FastDialogs_config)" by (simp add: FastDialogs_config_def)
  have sys: "\<And>c. map_of (dict_merge (FastCicdSystemConfigurator_init c incoming) incoming) k =
      (case map_of incoming k of Some v \<Rightarrow> Some v
           | None \<Rightarrow> (case map_of FastDialogs_config k of Some v \<Rightarrow> Some v
                       | None \<Rightarrow> map_of c k))"
    by (simp add: FastCicdSystemConfigurator_init_def lookup_dict_merge [OF d]
        lookup_dict_merge [OF fd] split: option.splits)
  show ?thesis
    using sys
    by (simp add: FastCicdConfigurator_init_def lookup_dict_merge [OF d]
        FastGitlabConfigurator_init_def FastGithubConfigurator_init_def Let_def map_of_dict_set)
qed

text \<open>
  C5, witness: the bootstrap path written by the first wizard reaches the GitLab wizard.
\<close>

theorem wizard_seed_merge_witness:
  "distinct (map fst core_config)
   \<and> map_of core_config ''bootstrap_output_path'' = Some (PStr ''stages/00-bootstrap/terraform.tfvars'')
   \<and> map_of FastDialogs_config ''bootstrap_output_path'' = Some PNone
   \<and> map_of (FastGitlabConfigurator_init core_config) ''bootstrap_output_path'' =
        Some (PStr ''stages/00-bootstrap/terraform.tfvars'')"
proof -
  have d: "distinct (map fst core_config)" by (simp add: core_config_def)
  have n: "''bootstrap_output_path'' \<noteq> ''gitlab_repositories''" by simp
  show ?thesis
    using d wizard_seed_merge [OF d, of "''bootstrap_output_path''"] n
    by (simp add: core_config_def FastDialogs_config_def)
qed

text \<open>
  C5, counterexample: \<open>bootstrap_output_path\<close> and \<open>git\<close> are keys of the later wizards'
  defaults, and the later wizards start with the incoming values.
\<close>

theorem wizard_seed_merge_counterexample:
  "map_of FastDialogs_config ''bootstrap_output_path'' = Some PNone
   \<and> map_of core_config ''bootstrap_output_path'' = Some (PStr ''stages/00-bootstrap/terraform.tfvars'')
   \<and> map_of (FastGitlabConfigurator_init core_config) ''bootstrap_output_path''
       \<noteq> map_of FastDialogs_config ''bootstrap_output_path''
   \<and> map_of FastCicdConfigurator_config ''git'' = Some (PStr ''ssh'')
   \<and> map_of (FastCicdConfigurator_init [(''git'', PStr ''https'')]) ''git'' = Some (PStr ''https'')"
  by (simp add: FastDialogs_config_def core_config_def FastGitlabConfigurator_init_def
      FastCicdSystemConfigurator_init_def FastGitlabConfigurator_config_def dict_merge_def
      FastCicdConfigurator_config_def FastCicdConfigurator_init_def Let_def map_of_dict_set)


section \<open>Properties of the dialogs and of the token steps\<close>

lemma app_loop_answer:
  "replies w = r # rs \<Longrightarrow> r \<noteq> Quit \<Longrightarrow> result r = Some a \<Longrightarrow>
   app_loop p result w = Returned a (w\<lparr>shown := shown w @ [p], replies := rs\<rparr>)"
  by (simp add: app_loop.simps [of p result w])

lemma maybe_quit_shown:
  "\<exists>more. shown (world_of (maybe_quit w)) = shown w @ more"
  by (auto simp: maybe_quit_def Let_def split: list.splits)

lemma app_loop_shown:
  "\<exists>more. shown (world_of (app_loop p result w)) = shown w @ p # more"
proof (induction p result w rule: app_loop.induct)
  case (1 p result w)
  show ?case
  proof (cases "replies w")
    case Nil
    then show ?thesis by (simp add: app_loop.simps [of p result w])
  next
    case (Cons r rs)
    show ?thesis
    proof (cases "r = Quit")
      case False
      with Cons show ?thesis
        by (cases "result r") (simp_all add: app_loop.simps [of p result w])
    next
      case True
      let ?w1 = "w\<lparr>shown := shown w @ [p], replies := rs\<rparr>"
      obtain more where m: "shown (world_of (maybe_quit ?w1)) = shown w @ [p] @ more"
        using maybe_quit_shown [of ?w1] by auto
      show ?thesis
      proof (cases "maybe_quit ?w1")
        case (Returned u w2)
        with 1 Cons True obtain more2 where
          "shown (world_of (app_loop p result w2)) = shown w2 @ p # more2" by blast
        with Returned m Cons True show ?thesis
          by (simp add: app_loop.simps [of p result w])
      next
        case (Exited w2)
        with m Cons True show ?thesis by (simp add: app_loop.simps [of p result w])
      next
        case (Raised e w2)
        with m Cons True show ?thesis by (simp add: app_loop.simps [of p result w])
      next
        case (Awaiting w2)
        with m Cons True show ?thesis by (simp add: app_loop.simps [of p result w])
      qed
    qed
  qed
qed

lemma app_loop_value:
  "app_loop p result w = Returned a w' \<Longrightarrow> \<exists>r. result r = Some a"
proof (induction p result w rule: app_loop.induct)
  case (1 p result w)
  show ?case
  proof (cases "replies w")
    case Nil
    with 1(2) show ?thesis by (simp add: app_loop.simps [of p result w])
  next
    case (Cons r rs)
    show ?thesis
    proof (cases "r = Quit")
      case False
      with Cons 1(2) show ?thesis
        by (cases "result r") (auto simp add: app_loop.simps [of p result w])
    next
      case True
      let ?w1 = "w\<lparr>shown := shown w @ [p], replies := rs\<rparr>"
      show ?thesis
      proof (cases "maybe_quit ?w1")
        case (Returned u w2)
        with 1(2) Cons True have "app_loop p result w2 = Returned a w'"
          by (simp add: app_loop.simps [of p result w])
        with 1(1) Cons True Returned show ?thesis by blast
      qed (use 1(2) Cons True in \<open>simp_all add: app_loop.simps [of p result w]\<close>)
    qed
  qed
qed

lemma input_dialog_values:
  "input_dialog ident value password w = Returned a w' \<Longrightarrow> (\<exists>t. a = PStr t) \<or> a = PBool False"
proof -
  assume "input_dialog ident value password w = Returned a w'"
  then obtain r where
    "(case r of Ok_Text t \<Rightarrow> Some (PStr t) | Previous \<Rightarrow> Some (PBool False) | _ \<Rightarrow> None) = Some a"
    unfolding input_dialog_def by (blast dest: app_loop_value)
  then show ?thesis by (cases r) auto
qed

lemma input_dialog_Previous:
  "replies w = Previous # rs \<Longrightarrow>
   input_dialog ident value password w =
     Returned (PBool False) (w\<lparr>shown := shown w @ [Input_Dialog ident value password], replies := rs\<rparr>)"
  by (simp add: input_dialog_def app_loop_answer)

lemma input_dialog_Ok_Text:
  "replies w = Ok_Text t # rs \<Longrightarrow>
   input_dialog ident value password w =
     Returned (PStr t) (w\<lparr>shown := shown w @ [Input_Dialog ident value password], replies := rs\<rparr>)"
  by (simp add: input_dialog_def app_loop_answer)

lemma input_dialog_shown:
  "\<exists>more. shown (world_of (input_dialog ident value password w)) =
     shown w @ Input_Dialog ident value password # more"
  by (simp add: input_dialog_def app_loop_shown)

text \<open>
  C10. Whenever a token step returns, it returns \<open>True\<close>: no outcome of the prompt
  makes it signal retreat. In particular, with the variable missing, after Previous and
  after an empty token the step returns \<open>True\<close> and leaves the environment as it was, so the
  variable stays unset.
\<close>

theorem token_steps_always_advance:
  "(select_gitlab_token w = Returned v w' \<longrightarrow> v = PBool True)
   \<and> (select_github_token w = Returned v w' \<longrightarrow> v = PBool True)
   \<and> (token_missing ''GITLAB_TOKEN'' w \<and> (replies w = Previous # rs \<or> replies w = Ok_Text [] # rs) \<longrightarrow>
        select_gitlab_token w =
          Returned (PBool True)
            (w\<lparr>shown := shown w @ [Input_Dialog ''gitlab_url'' [] True], replies := rs\<rparr>))
   \<and> (token_missing ''GITHUB_TOKEN'' w \<and> (replies w = Previous # rs \<or> replies w = Ok_Text [] # rs) \<longrightarrow>
        select_github_token w =
          Returned (PBool True)
            (w\<lparr>shown := shown w @ [Input_Dialog ''github_token'' [] True], replies := rs\<rparr>))"
proof -
  have a: "select_gitlab_token w = Returned v w' \<longrightarrow> v = PBool True"
  proof
    assume r: "select_gitlab_token w = Returned v w'"
    show "v = PBool True"
    proof (cases "input_dialog ''gitlab_url'' [] True w")
      case (Returned c w1)
      with r input_dialog_values [OF Returned] show ?thesis
        by (auto simp: select_gitlab_token_def split: if_splits option.splits)
    qed (use r in \<open>auto simp: select_gitlab_token_def split: if_splits option.splits\<close>)
  qed
  have b: "select_github_token w = Returned v w' \<longrightarrow> v = PBool True"
  proof
    assume r: "select_github_token w = Returned v w'"
    show "v = PBool True"
    proof (cases "input_dialog ''github_token'' [] True w")
      case (Returned c w1)
      with r input_dialog_values [OF Returned] show ?thesis
        by (auto simp: select_github_token_def split: if_splits option.splits)
    qed (use r in \<open>auto simp: select_github_token_def split: if_splits option.splits\<close>)
  qed
  have c: "token_missing ''GITLAB_TOKEN'' w \<and> (replies w = Previous # rs \<or> replies w = Ok_Text [] # rs) \<longrightarrow>
        select_gitlab_token w =
          Returned (PBool True)
            (w\<lparr>shown := shown w @ [Input_Dialog ''gitlab_url'' [] True], replies := rs\<rparr>)"
    by (auto simp: token_missing_def select_gitlab_token_def input_dialog_Previous input_dialog_Ok_Text)
  have d: "token_missing ''GITHUB_TOKEN'' w \<and> (replies w = Previous # rs \<or> replies w = Ok_Text [] # rs) \<longrightarrow>
        select_github_token w =
          Returned (PBool True)
            (w\<lparr>shown := shown w @ [Input_Dialog ''github_token'' [] True], replies := rs\<rparr>)"
    by (auto simp: token_missing_def select_github_token_def input_dialog_Previous input_dialog_Ok_Text)
  from a b c d show ?thesis by blast
qed

text \<open>
  C9 (as amended). With the variable set to a non-empty value the token step shows no
  prompt and changes nothing. With the variable not set, or set to the empty string, the
  step shows the masked input prompt; a non-empty token entered there is stored in the
  environment under the variable's name, where a later lookup finds it.
\<close>

theorem token_prompt_by_environment:
  "(map_of (environ w) ''GITLAB_TOKEN'' = Some (c # cs) \<longrightarrow>
      select_gitlab_token w = Returned (PBool True) w)
   \<and> (map_of (environ w) ''GITHUB_TOKEN'' = Some (c # cs) \<longrightarrow>
      select_github_token w = Returned (PBool True) w)
   \<and> (token_missing ''GITLAB_TOKEN'' w \<longrightarrow>
      (\<exists>more. shown (world_of (select_gitlab_token w)) =
         shown w @ Input_Dialog ''gitlab_url'' [] True # more))
   \<and> (token_missing ''GITHUB_TOKEN'' w \<longrightarrow>
      (\<exists>more. shown (world_of (select_github_token w)) =
         shown w @ Input_Dialog ''github_token'' [] True # more))
   \<and> (token_missing ''GITLAB_TOKEN'' w \<and> replies w = Ok_Text (t # ts) # rs \<longrightarrow>
      select_gitlab_token w =
        Returned (PBool True)
          (w\<lparr>shown := shown w @ [Input_Dialog ''gitlab_url'' [] True], replies := rs,
             environ := dict_set (environ w) ''GITLAB_TOKEN'' (t # ts)\<rparr>))
   \<and> (token_missing ''GITHUB_TOKEN'' w \<and> replies w = Ok_Text (t # ts) # rs \<longrightarrow>
      select_github_token w =
        Returned (PBool True)
          (w\<lparr>shown := shown w @ [Input_Dialog ''github_token'' [] True], replies := rs,
             environ := dict_set (environ w) ''GITHUB_TOKEN'' (t # ts)\<rparr>))
   \<and> map_of (dict_set (environ w) name (t # ts)) name = Some (t # ts)"
proof -
  have p1: "token_missing ''GITLAB_TOKEN'' w \<longrightarrow>
      (\<exists>more. shown (world_of (select_gitlab_token w)) =
         shown w @ Input_Dialog ''gitlab_url'' [] True # more)"
  proof
    assume m: "token_missing ''GITLAB_TOKEN'' w"
    obtain more where s: "shown (world_of (input_dialog ''gitlab_url'' [] True w)) =
        shown w @ Input_Dialog ''gitlab_url'' [] True # more"
      using input_dialog_shown by blast
    show "\<exists>more. shown (world_of (select_gitlab_token w)) =
         shown w @ Input_Dialog ''gitlab_url'' [] True # more"
    proof (cases "input_dialog ''gitlab_url'' [] True w")
      case (Returned a w1)
      with m s show ?thesis
        by (cases a) (auto simp: token_missing_def select_gitlab_token_def)
    qed (use m s in \<open>auto simp: token_missing_def select_gitlab_token_def\<close>)
  qed
  have p2: "token_missing ''GITHUB_TOKEN'' w \<longrightarrow>
      (\<exists>more. shown (world_of (select_github_token w)) =
         shown w @ Input_Dialog ''github_token'' [] True # more)"
  proof
    assume m: "token_missing ''GITHUB_TOKEN'' w"
    obtain more where s: "shown (world_of (input_dialog ''github_token'' [] True w)) =
        shown w @ Input_Dialog ''github_token'' [] True # more"
      using input_dialog_shown by blast
    show "\<exists>more. shown (world_of (select_github_token w)) =
         shown w @ Input_Dialog ''github_token'' [] True # more"
    proof (cases "input_dialog ''github_token'' [] True w")
      case (Returned a w1)
      with m s show ?thesis
        by (cases a) (auto simp: token_missing_def select_github_token_def)
    qed (use m s in \<open>auto simp: token_missing_def select_github_token_def\<close>)
  qed
  have e1: "token_missing ''GITLAB_TOKEN'' w \<and> replies w = Ok_Text (t # ts) # rs \<longrightarrow>
      select_gitlab_token w =
        Returned (PBool True)
          (w\<lparr>shown := shown w @ [Input_Dialog ''gitlab_url'' [] True], replies := rs,
             environ := dict_set (environ w) ''GITLAB_TOKEN'' (t # ts)\<rparr>)"
    by (auto simp: token_missing_def select_gitlab_token_def input_dialog_Ok_Text)
  have e2: "token_missing ''GITHUB_TOKEN'' w \<and> replies w = Ok_Text (t # ts) # rs \<longrightarrow>
      select_github_token w =
        Returned (PBool True)
          (w\<lparr>shown := shown w @ [Input_Dialog ''github_token'' [] True], replies := rs,
             environ := dict_set (environ w) ''GITHUB_TOKEN'' (t # ts)\<rparr>)"
    by (auto simp: token_missing_def select_github_token_def input_dialog_Ok_Text)
  have n1: "map_of (environ w) ''GITLAB_TOKEN'' = Some (c # cs) \<longrightarrow>
      select_gitlab_token w = Returned (PBool True) w"
    by (simp add: select_gitlab_token_def)
  have n2: "map_of (environ w) ''GITHUB_TOKEN'' = Some (c # cs) \<longrightarrow>
      select_github_token w = Returned (PBool True) w"
    by (simp add: select_github_token_def)
  have x: "map_of (dict_set (environ w) name (t # ts)) name = Some (t # ts)"
    by (simp add: map_of_dict_set)
  from p1 p2 e1 e2 n1 n2 x show ?thesis by blast
qed

text \<open>
  C10, witness: an empty token for GitLab and Previous for GitHub, with no variable set.
\<close>

theorem token_steps_always_advance_witness:
  "token_missing ''GITLAB_TOKEN'' (start_world [] [] [Ok_Text [], Previous] [])
   \<and> select_gitlab_token (start_world [] [] [Ok_Text [], Previous] []) =
       Returned (PBool True)
         \<lparr>config = [], environ = [], replies = [Previous], exit_codes = [],
          shown = [Input_Dialog ''gitlab_url'' [] True]\<rparr>
   \<and> token_missing ''GITHUB_TOKEN'' (start_world [] [] [Previous] [])
   \<and> select_github_token (start_world [] [] [Previous] []) =
       Returned (PBool True)
         \<lparr>config = [], environ = [], replies = [], exit_codes = [],
          shown = [Input_Dialog ''github_token'' [] True]\<rparr>"
proof -
  let ?w = "start_world [] [] [Ok_Text [], Previous] []"
  let ?v = "start_world [] [] [Previous] []"
  have m: "token_missing ''GITLAB_TOKEN'' ?w" "token_missing ''GITHUB_TOKEN'' ?v"
    by (simp_all add: token_missing_def start_world_def)
  have r: "replies ?w = Ok_Text [] # [Previous]" "replies ?v = Previous # []"
    by (simp_all add: start_world_def)
  from token_steps_always_advance [of ?w _ _ "[Previous]"] m r
  have "select_gitlab_token ?w =
      Returned (PBool True) (?w\<lparr>shown := shown ?w @ [Input_Dialog ''gitlab_url'' [] True], replies := [Previous]\<rparr>)"
    by blast
  moreover from token_steps_always_advance [of ?v _ _ "[]"] m r
  have "select_github_token ?v =
      Returned (PBool True) (?v\<lparr>shown := shown ?v @ [Input_Dialog ''github_token'' [] True], replies := []\<rparr>)"
    by blast
  ultimately show ?thesis using m by (simp add: start_world_def)
qed

text \<open>
  C9, witness: no prompt with \<open>GITLAB_TOKEN\<close> set, and a token entered for GitHub.
\<close>

theorem token_prompt_by_environment_witness:
  "select_gitlab_token (start_world [] [(''GITLAB_TOKEN'', ''glpat-1'')] [Previous] []) =
     Returned (PBool True) (start_world [] [(''GITLAB_TOKEN'', ''glpat-1'')] [Previous] [])
   \<and> token_missing ''GITHUB_TOKEN'' (start_world [] [] [Ok_Text ''ghp-1''] [])
   \<and> select_github_token (start_world [] [] [Ok_Text ''ghp-1''] []) =
       Returned (PBool True)
         \<lparr>config = [], environ = [(''GITHUB_TOKEN'', ''ghp-1'')], replies = [], exit_codes = [],
          shown = [Input_Dialog ''github_token'' [] True]\<rparr>"
proof -
  let ?w = "start_world [] [(''GITLAB_TOKEN'', ''glpat-1'')] [Previous] []"
  let ?v = "start_world [] [] [Ok_Text ''ghp-1''] []"
  have p: "map_of (environ ?w) ''GITLAB_TOKEN'' = Some (CHR ''g'' # ''lpat-1'')"
    by (simp add: start_world_def)
  have m: "token_missing ''GITHUB_TOKEN'' ?v"
    by (simp add: token_missing_def start_world_def)
  have r: "replies ?v = Ok_Text (CHR ''g'' # ''hp-1'') # []"
    by (simp add: start_world_def)
  from token_prompt_by_environment [of ?w "CHR ''g''" "''lpat-1''"] p
  have "select_gitlab_token ?w = Returned (PBool True) ?w" by blast
  moreover from token_prompt_by_environment [of ?v _ _ "CHR ''g''" "''hp-1''" "[]"] m r
  have "select_github_token ?v =
      Returned (PBool True)
          (?v\<lparr>shown := shown ?v @ [Input_Dialog ''github_token'' [] True], replies := [],
             environ := dict_set (environ ?v) ''GITHUB_TOKEN'' (CHR ''g'' # ''hp-1'')\<rparr>)"
    by blast
  ultimately show ?thesis using m by (simp add: start_world_def)
qed

text \<open>
  C9, counterexample: \<open>GITLAB_TOKEN\<close> is present in the environment with an empty value
  and the prompt is shown; \<open>GITHUB_TOKEN\<close> is absent, the operator enters an empty token and
  nothing is exported.
\<close>

theorem token_prompt_by_environment_counterexample:
  "map_of (environ (start_world [] [(''GITLAB_TOKEN'', [])] [Ok_Text ''glpat-1''] [])) ''GITLAB_TOKEN''
     = Some []
   \<and> select_gitlab_token (start_world [] [(''GITLAB_TOKEN'', [])] [Ok_Text ''glpat-1''] []) =
       Returned (PBool True)
         \<lparr>config = [], environ = [(''GITLAB_TOKEN'', ''glpat-1'')], replies = [], exit_codes = [],
          shown = [Input_Dialog ''gitlab_url'' [] True]\<rparr>
   \<and> map_of (environ (start_world [] [] [Ok_Text []] [])) ''GITHUB_TOKEN'' = None
   \<and> select_github_token (start_world [] [] [Ok_Text []] []) =
       Returned (PBool True)
         \<lparr>config = [], environ = [], replies = [], exit_codes = [],
          shown = [Input_Dialog ''github_token'' [] True]\<rparr>"
  by (simp add: start_world_def select_gitlab_token_def select_github_token_def
      input_dialog_Ok_Text)


section \<open>Properties of the Terraform retry loop\<close>

lemma run_terraform_retry:
  "exit_codes w = c # codes \<Longrightarrow> c \<noteq> 0 \<Longrightarrow> replies w = Ok_Button # rs \<Longrightarrow>
   run_terraform_until_ok cmd dir w =
     run_terraform_until_ok cmd dir ((terraform_started cmd dir w)\<lparr>exit_codes := codes, replies := rs\<rparr>)"
  by (simp add: run_terraform_until_ok.simps [of cmd dir w] terraform_started_def)

lemma run_terraform_ok:
  "exit_codes w = 0 # codes \<Longrightarrow> replies w = Ok_Button # rs \<Longrightarrow>
   run_terraform_until_ok cmd dir w =
     Returned (PBool True) ((terraform_started cmd dir w)\<lparr>exit_codes := codes, replies := rs\<rparr>)"
  by (simp add: run_terraform_until_ok.simps [of cmd dir w] terraform_started_def)

lemma run_terraform_previous:
  "exit_codes w = c # codes \<Longrightarrow> replies w = Previous # rs \<Longrightarrow>
   run_terraform_until_ok cmd dir w =
     Returned (PBool False) ((terraform_started cmd dir w)\<lparr>exit_codes := codes, replies := rs\<rparr>)"
  by (simp add: run_terraform_until_ok.simps [of cmd dir w] terraform_started_def)

lemma run_terraform_true_only_after_clean_exit:
  "run_terraform_until_ok cmd dir w = Returned v w' \<Longrightarrow> truthy v \<Longrightarrow>
   \<exists>failures. exit_codes w = failures @ 0 # exit_codes w'
     \<and> 0 \<notin> set failures
     \<and> replies w = replicate (length failures) Ok_Button @ Ok_Button # replies w'
     \<and> shown w' = shown w @ replicate (Suc (length failures)) (Terraform_Dialog cmd dir)"
proof (induction "length (replies w)" arbitrary: w rule: less_induct)
  case less
  let ?w1 = "terraform_started cmd dir w"
  note ret = less.prems(1)
  from ret obtain c codes where ec: "exit_codes w = c # codes"
    by (cases "exit_codes w") (auto simp: run_terraform_until_ok.simps [of cmd dir w])
  from ret ec obtain r rs where rp: "replies w = r # rs"
    by (cases "replies w") (auto simp: run_terraform_until_ok.simps [of cmd dir w])
  let ?w2 = "?w1\<lparr>exit_codes := codes, replies := rs\<rparr>"
  show ?case
  proof (cases r)
    case Ok_Button
    show ?thesis
    proof (cases "c = 0")
      case True
      with ret ec rp Ok_Button have "w' = ?w2"
        by (simp add: run_terraform_ok)
      then have "exit_codes w = [] @ 0 # exit_codes w' \<and> 0 \<notin> set ([] :: int list)
          \<and> replies w = replicate (length ([] :: int list)) Ok_Button @ Ok_Button # replies w'
          \<and> shown w' = shown w @ replicate (Suc (length ([] :: int list))) (Terraform_Dialog cmd dir)"
        using ec rp Ok_Button True by (simp add: terraform_started_def)
      then show ?thesis by blast
    next
      case False
      with ret ec rp Ok_Button have r2: "run_terraform_until_ok cmd dir ?w2 = Returned v w'"
        by (simp add: run_terraform_retry)
      have "length (replies ?w2) < length (replies w)" using rp by simp
      from less.hyps [OF this r2 less.prems(2)] obtain failures where
        f: "exit_codes ?w2 = failures @ 0 # exit_codes w'" "0 \<notin> set failures"
           "replies ?w2 = replicate (length failures) Ok_Button @ Ok_Button # replies w'"
           "shown w' = shown ?w2 @ replicate (Suc (length failures)) (Terraform_Dialog cmd dir)"
        by blast
      have "exit_codes w = (c # failures) @ 0 # exit_codes w' \<and> 0 \<notin> set (c # failures)
          \<and> replies w = replicate (length (c # failures)) Ok_Button @ Ok_Button # replies w'
          \<and> shown w' = shown w @ replicate (Suc (length (c # failures))) (Terraform_Dialog cmd dir)"
        using f ec rp Ok_Button False by (simp add: terraform_started_def)
      then show ?thesis by blast
    qed
  next
    case Previous
    with ret ec rp have "v = PBool False" by (simp add: run_terraform_previous)
    with less.prems(2) show ?thesis by simp
  next
    case Quit
    with ret ec rp less.prems(2) show ?thesis
      by (auto simp: run_terraform_until_ok.simps [of cmd dir w] split: outcome.splits)
  qed (use ret ec rp in \<open>simp_all add: run_terraform_until_ok.simps [of cmd dir w]\<close>)
qed

lemma and_then_Returned:
  "and_then x f = Returned v w' \<Longrightarrow> \<exists>a w1. x = Returned a w1 \<and> f a w1 = Returned v w'"
  by (cases x) auto

lemma yesno_dialog_Yes:
  "replies w = Yes # rs \<Longrightarrow>
   yesno_dialog ident w =
     Returned (PBool True, PBool True) (w\<lparr>shown := shown w @ [YesNo_Dialog ident], replies := rs\<rparr>)"
  by (simp add: yesno_dialog_def app_loop_answer)

text \<open>
  C8, the defect. Once the operator has answered Yes, \<open>select_terraform\<close> returns \<open>True\<close>
  whenever it returns, whatever the exit codes of the commands and whatever the retry
  loops returned: the step signals advance after a command that failed.
\<close>

theorem select_terraform_ignores_failure:
  assumes "replies w = Yes # rs" and "select_terraform w = Returned v w'"
  shows "v = PBool True"
proof -
  let ?w1 = "w\<lparr>shown := shown w @ [YesNo_Dialog ''terraform''], replies := rs\<rparr>"
  from assms have "and_then (terraform_stage ''00-bootstrap'' ?w1) (\<lambda>u w2.
              and_then (terraform_stage ''00-cicd'' w2) (\<lambda>u w3.
                Returned (PBool True) w3)) = Returned v w'"
    by (simp add: select_terraform_def yesno_dialog_Yes)
  then obtain u w2 where "and_then (terraform_stage ''00-cicd'' w2) (\<lambda>u w3.
                Returned (PBool True) w3) = Returned v w'"
    by (blast dest: and_then_Returned)
  then obtain u' w3 where "Returned (PBool True) w3 = Returned v w'"
    by (blast dest: and_then_Returned)
  then show ?thesis by simp
qed

text \<open>
  C8, the failing input: every command exits with code 1 and the operator presses
  Previous in each Terraform dialog. \<open>terraform_init\<close> returns \<open>False\<close>, the step returns
  \<open>True\<close> and the driver moves from step 0 to step 1.
\<close>

theorem select_terraform_ignores_failure_witness:
  "replies (cicd_world [Yes, Previous, Previous, Previous, Previous] [1, 1, 1, 1]) =
     Yes # [Previous, Previous, Previous, Previous]
   \<and> terraform_init ''stages/00-bootstrap''
       (cicd_world [Previous, Previous, Previous, Previous] [1, 1, 1, 1]) =
     Returned (PBool False)
       ((terraform_started [''terraform'', ''init'', ''-migrate-state'', ''-force-copy'']
           ''stages/00-bootstrap'' (cicd_world [Previous, Previous, Previous, Previous] [1, 1, 1, 1]))
          \<lparr>exit_codes := [1, 1, 1], replies := [Previous, Previous, Previous]\<rparr>)
   \<and> select_terraform (cicd_world [Yes, Previous, Previous, Previous, Previous] [1, 1, 1, 1]) =
       Returned (PBool True) after_failed_terraform
   \<and> wizard_pass (FastCicdConfigurator_methods (Returned (PBool True)))
         FastCicdConfigurator_setup_wizard 0
         (cicd_world [Yes, Previous, Previous, Previous, Previous] [1, 1, 1, 1]) =
       Returned 1 after_failed_terraform"
proof -
  let ?w = "cicd_world [Yes, Previous, Previous, Previous, Previous] [1, 1, 1, 1]"
  have r: "replies ?w = Yes # [Previous, Previous, Previous, Previous]"
    by (simp add: cicd_world_def start_world_def)
  have a: "select_terraform ?w = Returned (PBool True) after_failed_terraform"
    by code_simp
  have t: "PBool True = PBool True"
    by (rule select_terraform_ignores_failure [OF r a])
  have b: "terraform_init ''stages/00-bootstrap''
       (cicd_world [Previous, Previous, Previous, Previous] [1, 1, 1, 1]) =
     Returned (PBool False)
       ((terraform_started [''terraform'', ''init'', ''-migrate-state'', ''-force-copy'']
           ''stages/00-bootstrap'' (cicd_world [Previous, Previous, Previous, Previous] [1, 1, 1, 1]))
          \<lparr>exit_codes := [1, 1, 1], replies := [Previous, Previous, Previous]\<rparr>)"
    by (simp add: terraform_init_def run_terraform_previous cicd_world_def start_world_def)
  have c: "wizard_pass (FastCicdConfigurator_methods (Returned (PBool True)))
         FastCicdConfigurator_setup_wizard 0 ?w = Returned 1 after_failed_terraform"
    by (simp add: wizard_pass_def py_index_def FastCicdConfigurator_setup_wizard_def
        FastCicdConfigurator_methods_def a)
  from t r a b c show ?thesis by simp
qed

section \<open>Properties of the wizard driver\<close>

text \<open>
  A pass that returns was made at an index from \<open>-length\<close> to \<open>length - 1\<close> and moves
  \<open>dialog_index\<close> by one, up or down: the index never goes beyond the length.
\<close>

lemma wizard_pass_moves_by_one:
  assumes "wizard_pass self setup_wizard i w = Returned j w'"
  shows "- int (length setup_wizard) \<le> i \<and> i < int (length setup_wizard) \<and> (j = i + 1 \<or> j = i - 1)"
proof -
  from assms obtain dialog where d: "py_index setup_wizard i = Inr dialog"
    by (cases "py_index setup_wizard i") (auto simp: wizard_pass_def)
  then have b: "- int (length setup_wizard) \<le> i \<and> i < int (length setup_wizard)"
    by (auto simp: py_index_def Let_def split: if_splits)
  from assms d obtain dialog_func where f: "self (''select_'' @ dialog) = Some dialog_func"
    by (cases "self (''select_'' @ dialog)") (auto simp: wizard_pass_def)
  from assms d f obtain go w1 where
    "(if truthy go then Returned (i + 1) w1 else Returned (i - 1) w1) = Returned j w'"
    by (auto simp: wizard_pass_def dest!: and_then_Returned)
  then have "j = i + 1 \<or> j = i - 1" by (auto split: if_splits)
  with b show ?thesis by simp
qed

text \<open>
  C1, the defect. When the handler of the step at index 0 returns a false value, the pass
  ends with \<open>dialog_index = -1\<close> in the very state the handler returned (the driver
  shows no quit confirmation and does not end the process), the loop goes on, and the
  step looked up next is the last one of the wizard.
\<close>

theorem run_wizard_retreat_from_first_step:
  assumes "setup_wizard = first # rest"
    and "self (''select_'' @ first) = Some dialog_func"
    and "dialog_func w = Returned go_to_next w1"
    and "\<not> truthy go_to_next"
  shows "wizard_pass self setup_wizard 0 w = Returned (- 1) w1
    \<and> run_wizard (Suc fuel) self setup_wizard w = run_wizard_from fuel self setup_wizard (- 1) w1
    \<and> py_index setup_wizard (- 1) = Inr (last setup_wizard)"
proof -
  from assms have a: "wizard_pass self setup_wizard 0 w = Returned (- 1) w1"
    by (simp add: wizard_pass_def py_index_def)
  have b: "run_wizard (Suc fuel) self setup_wizard w = run_wizard_from fuel self setup_wizard (- 1) w1"
    by (simp add: run_wizard_def a)
  have "nat (int (length rest)) = length rest" by simp
  then have c: "py_index setup_wizard (- 1) = Inr (last setup_wizard)"
    using assms(1) by (simp add: py_index_def last_conv_nth del: nat_int)
  from a b c show ?thesis by simp
qed

text \<open>
  C1, the failing input: the operator presses Previous in the first dialog of the CI/CD
  wizard. No quit confirmation is shown, \<open>dialog_index\<close> is \<open>-1\<close>, the step run next is
  \<open>git\<close>, and when that one returns \<open>True\<close> the first dialog is shown again.
\<close>

theorem run_wizard_retreat_from_first_step_witness:
  "select_terraform (cicd_world [Previous] []) = Returned (PBool False) after_previous
   \<and> Quit_Confirmation \<notin> set (shown after_previous)
   \<and> wizard_pass (FastCicdConfigurator_methods (Returned (PBool True)))
         FastCicdConfigurator_setup_wizard 0 (cicd_world [Previous] []) =
       Returned (- 1) after_previous
   \<and> py_index FastCicdConfigurator_setup_wizard (- 1) = Inr ''git''
   \<and> run_wizard 3 (FastCicdConfigurator_methods (Returned (PBool True)))
         FastCicdConfigurator_setup_wizard (cicd_world [Previous] []) =
       Some (Awaiting (after_previous\<lparr>shown := [YesNo_Dialog ''terraform'', YesNo_Dialog ''terraform'']\<rparr>))"
proof -
  let ?M = "FastCicdConfigurator_methods (Returned (PBool True))"
  have s: "select_terraform (cicd_world [Previous] []) = Returned (PBool False) after_previous"
    by code_simp
  have sw: "FastCicdConfigurator_setup_wizard = ''terraform'' # [''git'']"
    by (simp add: FastCicdConfigurator_setup_wizard_def)
  have m: "?M (''select_'' @ ''terraform'') = Some select_terraform"
    by (simp add: FastCicdConfigurator_methods_def)
  have f: "\<not> truthy (PBool False)" by simp
  from run_wizard_retreat_from_first_step [where self = ?M and dialog_func = select_terraform
      and w = "cicd_world [Previous] []" and fuel = 0, OF sw m s f]
  have a: "wizard_pass ?M FastCicdConfigurator_setup_wizard 0 (cicd_world [Previous] []) =
       Returned (- 1) after_previous"
    and d: "py_index FastCicdConfigurator_setup_wizard (- 1) = Inr ''git''"
    by (simp_all add: FastCicdConfigurator_setup_wizard_def)
  have b: "Quit_Confirmation \<notin> set (shown after_previous)"
    by (simp add: after_previous_def)
  have e: "run_wizard 3 ?M FastCicdConfigurator_setup_wizard (cicd_world [Previous] []) =
       Some (Awaiting (after_previous\<lparr>shown := [YesNo_Dialog ''terraform'', YesNo_Dialog ''terraform'']\<rparr>))"
    by code_simp
  from s a b d e show ?thesis by simp
qed

section \<open>Properties of the repositories step\<close>

lemma dict_get_dict_set:
  "dict_get (dict_set d k v) k' = (if k' = k then Inr v else dict_get d k')"
  by (simp add: dict_get_def map_of_dict_set)

lemma maybe_quit_returned:
  "maybe_quit w = Returned u w' \<Longrightarrow> config w' = config w \<and> environ w' = environ w"
  by (auto simp: maybe_quit_def Let_def split: list.splits if_splits)

lemma app_loop_returned:
  "app_loop p result w = Returned a w' \<Longrightarrow> config w' = config w \<and> environ w' = environ w"
proof (induction p result w rule: app_loop.induct)
  case (1 p result w)
  show ?case
  proof (cases "replies w")
    case Nil
    with 1(2) show ?thesis by (simp add: app_loop.simps [of p result w])
  next
    case (Cons r rs)
    show ?thesis
    proof (cases "r = Quit")
      case False
      with Cons 1(2) show ?thesis
        by (cases "result r") (auto simp add: app_loop.simps [of p result w])
    next
      case True
      let ?w1 = "w\<lparr>shown := shown w @ [p], replies := rs\<rparr>"
      show ?thesis
      proof (cases "maybe_quit ?w1")
        case (Returned u w2)
        with 1(2) Cons True have "app_loop p result w2 = Returned a w'"
          by (simp add: app_loop.simps [of p result w])
        with 1(1) Cons True Returned have "config w' = config w2 \<and> environ w' = environ w2"
          by blast
        with maybe_quit_returned [OF Returned] show ?thesis by simp
      qed (use 1(2) Cons True in \<open>simp_all add: app_loop.simps [of p result w]\<close>)
    qed
  qed
qed

lemma field_texts_keys:
  "field_texts values value = Inr texts \<Longrightarrow> map fst texts = map fst values"
proof (induction "values" "value" arbitrary: texts rule: field_texts.induct)
  case (1 vl)
  then show ?case by simp
next
  case (2 k label rest vl)
  then show ?case
    by (auto split: sum.splits pyval.splits)
qed

lemma keys_dict_set: "fst ` set (dict_set d k v) = insert k (fst ` set d)"
proof -
  have "fst ` set (dict_set d k v) = dom (map_of (dict_set d k v))"
    by (simp add: dom_map_of_conv_image_fst)
  also have "\<dots> = insert k (dom (map_of d))" by (simp add: map_of_dict_set)
  finally show ?thesis by (simp add: dom_map_of_conv_image_fst)
qed

lemma repository_labels_keys:
  "repository_labels acc d = Inr values \<Longrightarrow> fst ` set values = fst ` set acc \<union> fst ` set d"
proof (induction acc d rule: repository_labels.induct)
  case (1 vs)
  then show ?case by simp
next
  case (2 vs k v rest)
  then show ?case
    by (auto simp: keys_dict_set split: sum.splits)
qed

lemma map_of_None_keys: "(map_of d k = None) = (k \<notin> fst ` set d)"
  by (simp add: map_of_eq_None_iff)

text \<open>
  C6, the defect. With \<open>use_upstream\<close> true, once the repositories step has returned
  (with Ok or with Previous), invoking it again on the configuration it left raises
  \<open>KeyError\<close>: the key \<open>modules\<close> was popped by the first invocation and is popped again.
\<close>

theorem select_repositories_not_reentrant:
  assumes ret: "select_repositories key w = Returned v w'"
    and up: "dict_get (config w) ''use_upstream'' = Inr u" "truthy u"
    and key: "key \<noteq> ''use_upstream''"
    and same: "config w'' = config w'"
  shows "select_repositories key w'' = Raised (KeyError ''modules'') w''"
proof -
  from ret up obtain w1 where pm: "pop_modules key w = Inr w1"
    by (cases "pop_modules key w") (auto simp: select_repositories_def)
  then obtain repos popped repos' where
    g: "dict_get (config w) key = Inr (PDict repos)"
    and pop: "dict_pop repos ''modules'' = Inr (popped, repos')"
    and w1: "w1 = w\<lparr>config := dict_set (config w) key (PDict repos')\<rparr>"
    by (auto simp: pop_modules_def split: sum.splits pyval.splits)
  from pop have repos': "''modules'' \<notin> fst ` set repos'"
    by (auto simp: dict_pop_def split: option.splits)
  have g1: "dict_get (config w1) key = Inr (PDict repos')"
    by (simp add: w1 dict_get_dict_set)
  from ret up pm g1 obtain "values" where lab: "repository_labels [] repos' = Inr values"
    by (cases "repository_labels [] repos'") (auto simp: select_repositories_def)
  from ret up pm g1 lab obtain texts where ft: "field_texts values repos' = Inr texts"
    by (cases "field_texts values repos'")
      (auto simp: select_repositories_def multi_input_dialog_def)
  let ?result = "\<lambda>r. case r of
        Ok_Form edits \<Rightarrow>
          Some (PBool True,
            PDict (map (\<lambda>kt. (fst kt,
              PStr (case map_of edits (fst kt) of Some e \<Rightarrow> e | None \<Rightarrow> snd kt))) texts))
      | Previous \<Rightarrow> Some (PBool False, PNone)
      | _ \<Rightarrow> None"
  from ret up pm g1 lab ft obtain gc w2 where
    al: "app_loop (Multi_Input_Dialog key values texts) ?result w1 = Returned gc w2"
    and fin: "(if truthy (fst gc) then Returned (PBool True) (w2\<lparr>config := dict_set (config w2) key (snd gc)\<rparr>)
              else Returned (PBool False) w2) = Returned v w'"
    by (cases "app_loop (Multi_Input_Dialog key values texts) ?result w1")
      (auto simp: select_repositories_def multi_input_dialog_def)
  from app_loop_returned [OF al] have c2: "config w2 = config w1" by simp
  from app_loop_value [OF al] obtain r where r: "?result r = Some gc" by blast
  have tk: "''modules'' \<notin> fst ` set texts"
  proof -
    have "fst ` set texts = fst ` set values"
      using field_texts_keys [OF ft] by (metis set_map)
    also have "\<dots> = fst ` set repos'" using repository_labels_keys [OF lab] by simp
    finally show ?thesis using repos' by simp
  qed
  have "\<exists>d. dict_get (config w') key = Inr (PDict d) \<and> ''modules'' \<notin> fst ` set d"
  proof (cases "truthy (fst gc)")
    case True
    with r obtain edits where gc: "gc = (PBool True,
            PDict (map (\<lambda>kt. (fst kt,
              PStr (case map_of edits (fst kt) of Some e \<Rightarrow> e | None \<Rightarrow> snd kt))) texts))"
      by (cases r) auto
    from True fin have "config w' = dict_set (config w2) key (snd gc)" by auto
    then have "dict_get (config w') key = Inr (snd gc)" by (simp add: dict_get_dict_set)
    moreover have "''modules'' \<notin> fst ` set (map (\<lambda>kt. (fst kt,
              PStr (case map_of edits (fst kt) of Some e \<Rightarrow> e | None \<Rightarrow> snd kt))) texts)"
      using tk by (auto simp: image_iff)
    ultimately show ?thesis using gc by auto
  next
    case False
    with fin have "config w' = config w2" by auto
    with c2 g1 repos' show ?thesis by auto
  qed
  then obtain d where d: "dict_get (config w'') key = Inr (PDict d)" "''modules'' \<notin> fst ` set d"
    using same by auto
  have "config w' = config w1 \<or> (\<exists>x. config w' = dict_set (config w1) key x)"
    using fin c2 by (auto split: if_splits)
  then have "dict_get (config w') ''use_upstream'' = Inr u"
    using up(1) key by (auto simp: w1 dict_get_dict_set)
  with same have u2: "dict_get (config w'') ''use_upstream'' = Inr u" by simp
  from d(2) have "dict_pop d ''modules'' = Inl (KeyError ''modules'')"
    by (simp add: dict_pop_def map_of_None_keys [symmetric])
  with d(1) have "pop_modules key w'' = Inl (KeyError ''modules'')"
    by (simp add: pop_modules_def)
  with u2 up(2) show ?thesis by (simp add: select_repositories_def)
qed

text \<open>
  C6, the failing input: the GitLab wizard as constructed, the step invoked twice, after
  Previous and after Ok.
\<close>

theorem select_repositories_not_reentrant_witness:
  "dict_get (config (gitlab_world [Previous])) ''use_upstream'' = Inr (PBool True)
   \<and> select_gitlab_repositories (gitlab_world [Previous]) =
     Returned (PBool False) (world_of (select_gitlab_repositories (gitlab_world [Previous])))
   \<and> select_gitlab_repositories (world_of (select_gitlab_repositories (gitlab_world [Previous]))) =
     Raised (KeyError ''modules'') (world_of (select_gitlab_repositories (gitlab_world [Previous])))
   \<and> select_gitlab_repositories (gitlab_world [Ok_Form [(''cicd'', ''my-cicd'')]]) =
     Returned (PBool True)
       (world_of (select_gitlab_repositories (gitlab_world [Ok_Form [(''cicd'', ''my-cicd'')]])))
   \<and> select_gitlab_repositories
       (world_of (select_gitlab_repositories (gitlab_world [Ok_Form [(''cicd'', ''my-cicd'')]]))) =
     Raised (KeyError ''modules'')
       (world_of (select_gitlab_repositories (gitlab_world [Ok_Form [(''cicd'', ''my-cicd'')]])))"
proof -
  let ?w = "gitlab_world [Previous]"
  let ?w' = "world_of (select_gitlab_repositories ?w)"
  let ?v = "gitlab_world [Ok_Form [(''cicd'', ''my-cicd'')]]"
  let ?v' = "world_of (select_gitlab_repositories ?v)"
  have u: "dict_get (config ?w) ''use_upstream'' = Inr (PBool True)"
    "dict_get (config ?v) ''use_upstream'' = Inr (PBool True)"
    by code_simp+
  have t: "truthy (PBool True)" by simp
  have k: "''gitlab_repositories'' \<noteq> ''use_upstream''" by simp
  have r1: "select_repositories ''gitlab_repositories'' ?w = Returned (PBool False) ?w'"
    by code_simp
  have r2: "select_repositories ''gitlab_repositories'' ?v = Returned (PBool True) ?v'"
    by code_simp
  from select_repositories_not_reentrant [OF r1 u(1) t k refl]
  have e1: "select_repositories ''gitlab_repositories'' ?w' = Raised (KeyError ''modules'') ?w'" .
  from select_repositories_not_reentrant [OF r2 u(2) t k refl]
  have e2: "select_repositories ''gitlab_repositories'' ?v' = Raised (KeyError ''modules'') ?v'" .
  from u r1 r2 e1 e2 show ?thesis
    by (simp only: select_gitlab_repositories_def simp_thms)
qed

end
